theory Spec2Isabelle
  imports Main
begin

section \<open>Shopping cart: data model\<close>

text \<open>
  The tables of \<^verbatim>\<open>lms/djangoapps/shoppingcart/models.py\<close>. A model instance is a record,
  a table is the list of its rows, a foreign key is the primary key of the row it points to.
  Amounts of money (\<^verbatim>\<open>DecimalField(decimal_places=2)\<close>) are integers counting hundredths
  of the currency unit. Every arithmetic operation on decimals rounds its result to the 28
  significant digits of the decimal context; the model rounds where the code computes.
\<close>

type_synonym course_key = string
type_synonym user_id = nat
type_synonym money = int
type_synonym timestamp = nat

datatype status = Cart | Paying | Purchased | Refunded

datatype OrderTypes = PERSONAL | BUSINESS

record Order =
  order_id :: nat
  order_user :: user_id
  order_currency :: string
  order_status :: status
  purchase_time :: "timestamp option"
  refunded_time :: "timestamp option"
  bill_to_first :: string
  bill_to_last :: string
  bill_to_street1 :: string
  bill_to_street2 :: string
  bill_to_city :: string
  bill_to_state :: string
  bill_to_postalcode :: string
  bill_to_country :: string
  bill_to_ccnum :: string
  bill_to_cardtype :: string
  processor_reply_dump :: string
  order_type :: OrderTypes

text \<open>
  The subclasses of \<^verbatim>\<open>OrderItem\<close> (multi-table inheritance, read back with
  \<^verbatim>\<open>select_subclasses\<close>) are the values of \<open>kind\<close>; every subclass declares
  \<^verbatim>\<open>course_id\<close>, whose empty value reads back as \<^verbatim>\<open>None\<close>.
\<close>

datatype item_kind = PaidCourseRegistration | CourseRegCodeItem | CertificateItem | Donation

record OrderItem =
  item_id :: nat
  item_order :: nat
  item_user :: user_id
  item_status :: status
  qty :: int
  unit_cost :: money
  list_price :: "money option"
  line_desc :: string
  item_currency :: string
  fulfilled_time :: "timestamp option"
  refund_requested_time :: "timestamp option"
  service_fee :: money
  report_comments :: string
  kind :: item_kind
  course_id :: "course_key option"
  mode :: string
  course_enrollment :: "nat option"
  donation_type :: string

record CourseRegistrationCode =
  regcode_id :: nat
  regcode_code :: string
  regcode_course_id :: "course_key option"
  regcode_created_by :: user_id
  regcode_order :: "nat option"
  regcode_invoice :: "nat option"

record RegistrationCodeRedemption =
  redemption_order :: "nat option"
  registration_code :: nat
  redeemed_by :: user_id

record Coupon =
  coupon_id :: nat
  coupon_code :: string
  coupon_course_id :: "course_key option"
  percentage_discount :: int
  coupon_created_by :: user_id
  is_active :: bool

text \<open>
  \<^verbatim>\<open>coupon_redemption.coupon\<close> is the coupon row the foreign key points to; the
  redemption row of the model carries that row. The creation timestamps of codes, coupons and
  redemptions (defaults fixed when the module is loaded) are left out: no operation reads them.
\<close>

record CouponRedemption =
  cr_order :: nat
  cr_user :: user_id
  cr_coupon :: Coupon

text \<open>
  What the collaborators outside this file are asked to do, in the order of the calls:
  enrollment, registration code creation, identity verification, mail.
\<close>

datatype effect =
    Enroll user_id "course_key option" "string option"
  | SaveRegistrationCode user_id "course_key option" nat
  | SubmitVerification "nat option"
  | ChangeMode "nat option" string
  | Activate "nat option"
  | ConfirmationEmails nat bool
  | RefundEmail nat

record store =
  orders :: "Order list"
  orderitems :: "OrderItem list"
  couponredemptions :: "CouponRedemption list"
  registrationcoderedemptions :: "RegistrationCodeRedemption list"
  effects :: "effect list"

datatype error =
    InvalidCartItem
  | PurchasedCallbackException
  | ItemAlreadyInCartException
  | AlreadyEnrolledInCourseException
  | CourseDoesNotExistException
  | MultipleCouponsNotAllowedException
  | RegCodeAlreadyExistException
  | ItemDoesNotExistAgainstRegCodeException
  | MultipleObjectsReturned
  | DoesNotExist

subsection \<open>Rows: save, delete, related sets\<close>

text \<open>\<^verbatim>\<open>save()\<close> writes every field of the instance to the row with its primary key, or adds the row.\<close>

definition save_order :: "Order \<Rightarrow> store \<Rightarrow> store" where
  "save_order ordr s =
     s\<lparr>orders :=
        (if list_ex (\<lambda>r. order_id r = order_id ordr) (orders s)
         then map (\<lambda>r. if order_id r = order_id ordr then ordr else r) (orders s)
         else orders s @ [ordr])\<rparr>"

definition save_item :: "OrderItem \<Rightarrow> store \<Rightarrow> store" where
  "save_item item s =
     s\<lparr>orderitems :=
        (if list_ex (\<lambda>r. item_id r = item_id item) (orderitems s)
         then map (\<lambda>r. if item_id r = item_id item then item else r) (orderitems s)
         else orderitems s @ [item])\<rparr>"

definition delete_item :: "OrderItem \<Rightarrow> store \<Rightarrow> store" where
  "delete_item item s = s\<lparr>orderitems := filter (\<lambda>r. item_id r \<noteq> item_id item) (orderitems s)\<rparr>"

text \<open>\<^verbatim>\<open>order.orderitem_set.all()\<close>, also \<^verbatim>\<open>OrderItem.objects.filter(order=order)\<close>.\<close>

definition orderitem_set :: "Order \<Rightarrow> store \<Rightarrow> OrderItem list" where
  "orderitem_set ordr s = filter (\<lambda>i. item_order i = order_id ordr) (orderitems s)"

section \<open>Decimal arithmetic\<close>

text \<open>
  The nearest integer to \<open>n / d\<close> for \<open>0 < d\<close>, a tie going to the even neighbour: the
  rounding of float division and the default rounding of the decimal context
  (\<^verbatim>\<open>ROUND_HALF_EVEN\<close>).
\<close>

definition round_half_even :: "int \<Rightarrow> int \<Rightarrow> int" where
  "round_half_even n d =
     (let q = n div d; r = n mod d
      in if 2 * r < d then q else if d < 2 * r then q + 1 else if even q then q else q + 1)"

text \<open>
  The number of digits of a positive integer \<open>n\<close> in base \<open>b\<close>: \<^verbatim>\<open>n.bit_length()\<close> in
  base 2, the length of a decimal coefficient in base 10.
\<close>

function digits_in_base :: "int \<Rightarrow> int \<Rightarrow> nat" where
  "digits_in_base b n = (if n \<le> 0 \<or> b \<le> 1 then 0 else Suc (digits_in_base b (n div b)))"
  by pat_completeness auto
termination
proof (relation "measure (\<lambda>(b, n). nat n)")
  show "wf (measure (\<lambda>(b, n). nat n))" by simp
next
  fix b n :: int
  assume "\<not> (n \<le> 0 \<or> b \<le> 1)"
  then have "0 < n" "1 < b" by simp_all
  then have "n div b < n" by (simp add: int_div_less_self)
  moreover have "0 \<le> n div b" using \<open>0 < n\<close> \<open>1 < b\<close> by (simp add: pos_imp_zdiv_nonneg_iff)
  ultimately show "((b, n div b), (b, n)) \<in> measure (\<lambda>(b, n). nat n)" by simp
qed

text \<open>
  A decimal is the pair \<open>(c, x)\<close> standing for \<open>c * 10 ^ x\<close>. The context rounds the result
  of an arithmetic operation to 28 significant digits, half-even, when the coefficient has
  more.
\<close>

definition context_round :: "int \<times> int \<Rightarrow> int \<times> int" where
  "context_round d =
     (case d of (c, x) \<Rightarrow>
        let digits = digits_in_base 10 \<bar>c\<bar>
        in if 28 < digits then (round_half_even c (10 ^ (digits - 28)), x + int (digits - 28))
           else (c, x))"

text \<open>
  An amount is the decimal \<open>(c, - 2)\<close>. The result of an operation on amounts is rounded by
  the context and is an amount again: its exponent is \<open>- 2\<close> or above.
\<close>

definition round_amount :: "int \<Rightarrow> int" where
  "round_amount c = (case context_round (c, - 2) of (c', x) \<Rightarrow> c' * 10 ^ nat (x + 2))"

section \<open>Order\<close>

subsection \<open>total\_cost\<close>

text \<open>\<^verbatim>\<open>self.qty * self.unit_cost\<close>: an integer times a decimal, rounded by the context.\<close>

definition line_cost :: "OrderItem \<Rightarrow> money" where
  "line_cost item = round_amount (qty item * unit_cost item)"

text \<open>
  The builtin \<^verbatim>\<open>sum\<close>: an accumulator that starts at 0; each addition of a decimal is
  rounded by the context.
\<close>

fun py_sum :: "money list \<Rightarrow> money \<Rightarrow> money" where
  "py_sum [] acc = acc"
| "py_sum (x # xs) acc = py_sum xs (round_amount (acc + x))"

definition total_cost :: "Order \<Rightarrow> store \<Rightarrow> money" where
  "total_cost ordr s =
     py_sum (map line_cost (filter (\<lambda>i. item_status i = order_status ordr) (orderitem_set ordr s))) 0"

subsection \<open>reset\_cart\_items\_prices\<close>

text \<open>
  \<^verbatim>\<open>if item.list_price:\<close> is the truth value of an optional decimal: false for
  \<^verbatim>\<open>None\<close> and for zero.
\<close>

fun reset_loop :: "OrderItem list \<Rightarrow> store \<Rightarrow> store" where
  "reset_loop [] s = s"
| "reset_loop (item # rest) s =
     (case list_price item of
        None \<Rightarrow> reset_loop rest s
      | Some lp \<Rightarrow>
          if lp \<noteq> 0
          then reset_loop rest (save_item (item\<lparr>unit_cost := lp, list_price := None\<rparr>) s)
          else reset_loop rest s)"

definition reset_cart_items_prices :: "Order \<Rightarrow> store \<Rightarrow> store" where
  "reset_cart_items_prices ordr s = reset_loop (orderitem_set ordr s) s"

subsection \<open>start\_purchase\<close>

definition OrderItem_start_purchase :: "OrderItem \<Rightarrow> store \<Rightarrow> store" where
  "OrderItem_start_purchase item s = save_item (item\<lparr>item_status := Paying\<rparr>) s"

fun start_purchase_loop :: "OrderItem list \<Rightarrow> store \<Rightarrow> store" where
  "start_purchase_loop [] s = s"
| "start_purchase_loop (item # rest) s = start_purchase_loop rest (OrderItem_start_purchase item s)"

definition start_purchase :: "Order \<Rightarrow> store \<Rightarrow> Order \<times> store" where
  "start_purchase ordr s =
     (if order_status ordr = Cart
      then (let ordr' = ordr\<lparr>order_status := Paying\<rparr>;
                s1 = save_order ordr' s
            in (ordr', start_purchase_loop (orderitem_set ordr' s1) s1))
      else (ordr, s))"

section \<open>Collaborators\<close>

text \<open>
  The course catalogue (\<^verbatim>\<open>modulestore\<close>), the course modes, the enrollment service and
  the settings live outside this file. An operation receives what they answer at the time
  of the call: \<open>get_course\<close> gives the display name of a course that exists, \<open>min_price\<close>
  is the price of a mode as an amount. The two annotation tables of this file, which no
  operation writes, are passed along with them.
\<close>

record course_mode =
  slug :: string
  min_price :: money
  mode_currency :: string

record env =
  get_course :: "course_key option \<Rightarrow> string option"
  has_course :: "course_key option \<Rightarrow> bool"
  mode_for_course :: "course_key option \<Rightarrow> string \<Rightarrow> course_mode option"
  DEFAULT_MODE :: course_mode
  DEFAULT_MODE_SLUG :: string
  is_enrolled :: "user_id \<Rightarrow> course_key option \<Rightarrow> bool"
  STORE_BILLING_INFO :: bool
  PaidCourseRegistrationAnnotation :: "(course_key option \<times> string) list"
  CourseRegCodeItemAnnotation :: "(course_key option \<times> string) list"

section \<open>Adding items to an order\<close>

text \<open>The currency check of \<^verbatim>\<open>OrderItem.add_to_order\<close>; it adds nothing.\<close>

definition OrderItem_add_to_order :: "Order \<Rightarrow> string \<Rightarrow> store \<Rightarrow> error option" where
  "OrderItem_add_to_order ordr currency s =
     (if order_currency ordr \<noteq> currency \<and> orderitem_set ordr s \<noteq> []
      then Some InvalidCartItem else None)"

definition contained_in_order :: "item_kind \<Rightarrow> Order \<Rightarrow> course_key option \<Rightarrow> store \<Rightarrow> bool" where
  "contained_in_order cls ordr c s =
     list_ex (\<lambda>i. kind i = cls \<and> course_id i = c) (orderitem_set ordr s)"

definition fresh_item_id :: "store \<Rightarrow> nat" where
  "fresh_item_id s = Suc (fold max (map item_id (orderitems s)) 0)"

text \<open>A new row of subclass \<open>cls\<close> with the defaults of the fields.\<close>

definition new_item :: "env \<Rightarrow> item_kind \<Rightarrow> Order \<Rightarrow> course_key option \<Rightarrow> store \<Rightarrow> OrderItem" where
  "new_item ev cls ordr c s =
     \<lparr>item_id = fresh_item_id s, item_order = order_id ordr, item_user = order_user ordr,
      item_status = Cart, qty = 1, unit_cost = 0, list_price = None,
      line_desc = ''Misc. Item'', item_currency = ''usd'', fulfilled_time = None,
      refund_requested_time = None, service_fee = 0, report_comments = [],
      kind = cls, course_id = c, mode = DEFAULT_MODE_SLUG ev, course_enrollment = None,
      donation_type = []\<rparr>"

text \<open>\<^verbatim>\<open>cls.objects.get_or_create(order=order, user=order.user, course_id=course_id)\<close>\<close>

definition get_or_create :: "env \<Rightarrow> item_kind \<Rightarrow> Order \<Rightarrow> course_key option \<Rightarrow> store \<Rightarrow> error + OrderItem \<times> store" where
  "get_or_create ev cls ordr c s =
     (case filter (\<lambda>i. kind i = cls \<and> item_order i = order_id ordr \<and> item_user i = order_user ordr
                        \<and> course_id i = c) (orderitems s) of
        [] \<Rightarrow> Inr (new_item ev cls ordr c s, save_item (new_item ev cls ordr c s) s)
      | [i] \<Rightarrow> Inr (i, s)
      | _ \<Rightarrow> Inl MultipleObjectsReturned)"

definition csv_report_comments :: "(course_key option \<times> string) list \<Rightarrow> course_key option \<Rightarrow> string" where
  "csv_report_comments table c = (case map_of table c of None \<Rightarrow> [] | Some a \<Rightarrow> a)"

text \<open>
  The shared body of \<^verbatim>\<open>PaidCourseRegistration.add_to_order\<close> and
  \<^verbatim>\<open>CourseRegCodeItem.add_to_order\<close>: they differ in the subclass, the quantity, the
  description and the annotation table. \<open>cost\<close> and \<open>currency\<close> are the optional arguments;
  \<^verbatim>\<open>if not cost\<close> also replaces a zero cost, \<^verbatim>\<open>if not currency\<close> an empty string.
\<close>

definition course_item_add_to_order ::
  "env \<Rightarrow> item_kind \<Rightarrow> int \<Rightarrow> string \<Rightarrow> (course_key option \<times> string) list \<Rightarrow> Order \<Rightarrow> course_key option
     \<Rightarrow> string \<Rightarrow> money option \<Rightarrow> string option \<Rightarrow> store \<Rightarrow> (error + Order \<times> OrderItem) \<times> store" where
  "course_item_add_to_order ev cls quantity desc table ordr c mode_slug cost currency s =
     (case get_course ev c of
        None \<Rightarrow> (Inl CourseDoesNotExistException, s)
      | Some course_name \<Rightarrow>
          if contained_in_order cls ordr c s then (Inl ItemAlreadyInCartException, s)
          else if is_enrolled ev (order_user ordr) c then (Inl AlreadyEnrolledInCourseException, s)
          else
            let cm = (case mode_for_course ev c mode_slug of None \<Rightarrow> DEFAULT_MODE ev | Some m \<Rightarrow> m);
                cost' = (case cost of None \<Rightarrow> min_price cm
                         | Some v \<Rightarrow> if v = 0 then min_price cm else v);
                currency' = (case currency of None \<Rightarrow> mode_currency cm
                             | Some cu \<Rightarrow> if cu = [] then mode_currency cm else cu)
            in (case OrderItem_add_to_order ordr currency' s of
                  Some e \<Rightarrow> (Inl e, s)
                | None \<Rightarrow>
                   (case get_or_create ev cls ordr c s of
                      Inl e \<Rightarrow> (Inl e, s)
                    | Inr (item, s1) \<Rightarrow>
                        let item' = item\<lparr>item_status := order_status ordr, mode := slug cm,
                                         qty := quantity, unit_cost := cost',
                                         line_desc := desc @ course_name,
                                         item_currency := currency',
                                         report_comments := csv_report_comments table c\<rparr>;
                            ordr' = ordr\<lparr>order_currency := currency'\<rparr>
                        in (Inr (ordr', item'), save_item item' (save_order ordr' s1)))))"

definition PaidCourseRegistration_add_to_order ::
  "env \<Rightarrow> Order \<Rightarrow> course_key option \<Rightarrow> string \<Rightarrow> money option \<Rightarrow> string option \<Rightarrow> store
     \<Rightarrow> (error + Order \<times> OrderItem) \<times> store" where
  "PaidCourseRegistration_add_to_order ev ordr c mode_slug cost currency s =
     course_item_add_to_order ev PaidCourseRegistration 1 ''Registration for Course: ''
       (PaidCourseRegistrationAnnotation ev) ordr c mode_slug cost currency s"

definition CourseRegCodeItem_add_to_order ::
  "env \<Rightarrow> Order \<Rightarrow> course_key option \<Rightarrow> int \<Rightarrow> string \<Rightarrow> money option \<Rightarrow> string option \<Rightarrow> store
     \<Rightarrow> (error + Order \<times> OrderItem) \<times> store" where
  "CourseRegCodeItem_add_to_order ev ordr c quantity mode_slug cost currency s =
     course_item_add_to_order ev CourseRegCodeItem quantity ''Enrollment codes for Course: ''
       (CourseRegCodeItemAnnotation ev) ordr c mode_slug cost currency s"

section \<open>update\_order\_type\<close>

text \<open>
  The two loops over the cart items read before the first change. In the business case
  each single-seat item gets a bundle item through \<^verbatim>\<open>CourseRegCodeItem.add_to_order\<close>,
  in the personal case each bundle item a single-seat item; an exception of
  \<^verbatim>\<open>add_to_order\<close> ends the operation.
\<close>

fun to_bundle_items :: "env \<Rightarrow> Order \<Rightarrow> OrderItem list \<Rightarrow> store \<Rightarrow> (error + Order) \<times> store" where
  "to_bundle_items ev ordr [] s = (Inr ordr, s)"
| "to_bundle_items ev ordr (cart_item # rest) s =
     (if kind cart_item = PaidCourseRegistration
      then (case CourseRegCodeItem_add_to_order ev ordr (course_id cart_item) (qty cart_item)
                   (DEFAULT_MODE_SLUG ev) None None s of
              (Inl e, s') \<Rightarrow> (Inl e, s')
            | (Inr (ordr', _), s') \<Rightarrow> to_bundle_items ev ordr' rest s')
      else to_bundle_items ev ordr rest s)"

fun to_single_items :: "env \<Rightarrow> Order \<Rightarrow> OrderItem list \<Rightarrow> store \<Rightarrow> (error + Order) \<times> store" where
  "to_single_items ev ordr [] s = (Inr ordr, s)"
| "to_single_items ev ordr (cart_item # rest) s =
     (if kind cart_item = CourseRegCodeItem
      then (case PaidCourseRegistration_add_to_order ev ordr (course_id cart_item)
                   (DEFAULT_MODE_SLUG ev) None None s of
              (Inl e, s') \<Rightarrow> (Inl e, s')
            | (Inr (ordr', _), s') \<Rightarrow> to_single_items ev ordr' rest s')
      else to_single_items ev ordr rest s)"

definition update_order_type :: "env \<Rightarrow> Order \<Rightarrow> store \<Rightarrow> (error + Order) \<times> store" where
  "update_order_type ev ordr s =
     (let cart_items = orderitem_set ordr s;
          is_order_type_business = list_ex (\<lambda>i. 1 < qty i) cart_items;
          items_to_delete =
            filter (\<lambda>i. kind i = (if is_order_type_business then PaidCourseRegistration
                                   else CourseRegCodeItem)) cart_items
      in (case (if is_order_type_business then to_bundle_items ev ordr cart_items s
                else to_single_items ev ordr cart_items s) of
            (Inl e, s1) \<Rightarrow> (Inl e, s1)
          | (Inr ordr1, s1) \<Rightarrow>
              let s2 = fold delete_item items_to_delete s1;
                  ordr2 = ordr1\<lparr>order_type := (if is_order_type_business then BUSINESS else PERSONAL)\<rparr>
              in (Inr ordr2, save_order ordr2 s2)))"

section \<open>Purchase\<close>

text \<open>
  \<^verbatim>\<open>purchased_callback\<close> of the four subclasses. What it asks of the enrollment service,
  the code generator and the verification service is appended to \<open>effects\<close>.
\<close>

definition purchased_callback :: "env \<Rightarrow> OrderItem \<Rightarrow> store \<Rightarrow> error option \<times> store" where
  "purchased_callback ev item s =
     (case kind item of
        PaidCourseRegistration \<Rightarrow>
          if \<not> has_course ev (course_id item) then (Some PurchasedCallbackException, s)
          else (None, s\<lparr>effects := effects s @ [Enroll (item_user item) (course_id item) (Some (mode item))]\<rparr>)
      | CourseRegCodeItem \<Rightarrow>
          if \<not> has_course ev (course_id item) then (Some PurchasedCallbackException, s)
          else (None, s\<lparr>effects := effects s @
                  replicate (nat (qty item))
                    (SaveRegistrationCode (item_user item) (course_id item) (item_order item))\<rparr>)
      | CertificateItem \<Rightarrow>
          (None, s\<lparr>effects := effects s @
                  [SubmitVerification (course_enrollment item),
                   ChangeMode (course_enrollment item) (mode item),
                   Activate (course_enrollment item)]\<rparr>)
      | Donation \<Rightarrow> (None, s))"

definition purchase_item :: "env \<Rightarrow> timestamp \<Rightarrow> OrderItem \<Rightarrow> store \<Rightarrow> error option \<times> store" where
  "purchase_item ev now item s =
     (case purchased_callback ev item s of
        (Some e, s') \<Rightarrow> (Some e, s')
      | (None, s') \<Rightarrow>
          (None, save_item (item\<lparr>item_status := Purchased, fulfilled_time := Some now\<rparr>) s'))"

fun purchase_items :: "env \<Rightarrow> timestamp \<Rightarrow> OrderItem list \<Rightarrow> store \<Rightarrow> error option \<times> store" where
  "purchase_items ev now [] s = (None, s)"
| "purchase_items ev now (item # rest) s =
     (case purchase_item ev now item s of
        (Some e, s') \<Rightarrow> (Some e, s')
      | (None, s') \<Rightarrow> purchase_items ev now rest s')"

record billing =
  arg_first :: string
  arg_last :: string
  arg_street1 :: string
  arg_street2 :: string
  arg_city :: string
  arg_state :: string
  arg_postalcode :: string
  arg_country :: string
  arg_ccnum :: string
  arg_cardtype :: string
  arg_processor_reply_dump :: string

text \<open>
  \<^verbatim>\<open>orderitems\<close> is a lazy query: it is read when the loop over it starts, after
  \<^verbatim>\<open>update_order_type\<close>. The registration code file and the confirmation mails are one
  entry of \<open>effects\<close>: a failure to send is caught and logged, and the course lookups of the
  file are taken to succeed. The model returns the order as the call leaves it.
\<close>

definition purchase :: "env \<Rightarrow> timestamp \<Rightarrow> billing \<Rightarrow> Order \<Rightarrow> store \<Rightarrow> (error + Order) \<times> store" where
  "purchase ev now b ordr s =
     (if order_status ordr = Purchased then (Inr ordr, s)
      else
        let ordr1 = ordr\<lparr>order_status := Purchased, purchase_time := Some now,
                          bill_to_first := arg_first b, bill_to_last := arg_last b,
                          bill_to_city := arg_city b, bill_to_state := arg_state b,
                          bill_to_country := arg_country b, bill_to_postalcode := arg_postalcode b\<rparr>;
            ordr2 = (if STORE_BILLING_INFO ev
                     then ordr1\<lparr>bill_to_street1 := arg_street1 b, bill_to_street2 := arg_street2 b,
                                bill_to_ccnum := arg_ccnum b, bill_to_cardtype := arg_cardtype b,
                                processor_reply_dump := arg_processor_reply_dump b\<rparr>
                     else ordr1);
            s1 = save_order ordr2 s
        in (case (if order_type ordr2 = BUSINESS then update_order_type ev ordr2 s1
                  else (Inr ordr2, s1)) of
              (Inl e, s2) \<Rightarrow> (Inl e, s2)
            | (Inr ordr3, s2) \<Rightarrow>
               (case purchase_items ev now (orderitem_set ordr3 s2) s2 of
                  (Some e, s3) \<Rightarrow> (Inl e, s3)
                | (None, s3) \<Rightarrow>
                    (Inr ordr3,
                     s3\<lparr>effects := effects s3 @
                          [ConfirmationEmails (order_id ordr3) (order_type ordr3 = BUSINESS)]\<rparr>))))"

section \<open>Refund of a certificate\<close>

text \<open>
  \<^verbatim>\<open>CertificateItem.refund_cert_callback\<close>, the receiver of the unenrollment signal.
  \<open>refundable\<close>, \<open>user\<close> and \<open>course\<close> are what the enrollment of the signal answers.
\<close>

definition refund_cert_callback ::
  "timestamp \<Rightarrow> bool \<Rightarrow> user_id \<Rightarrow> course_key option \<Rightarrow> store \<Rightarrow> (error + OrderItem option) \<times> store" where
  "refund_cert_callback now refundable user course s =
     (if \<not> refundable then (Inr None, s)
      else
        (case filter (\<lambda>i. kind i = CertificateItem \<and> course_id i = course \<and> item_user i = user
                          \<and> item_status i = Purchased \<and> mode i = ''verified'') (orderitems s) of
           [] \<Rightarrow> (Inr None, s)
         | target_cert # _ \<Rightarrow>
             let target_cert' = target_cert\<lparr>item_status := Refunded, refund_requested_time := Some now\<rparr>;
                 s1 = save_item target_cert' s
             in (case find (\<lambda>r. order_id r = item_order target_cert') (orders s1) of
                   None \<Rightarrow> (Inl DoesNotExist, s1)
                 | Some ordr \<Rightarrow>
                     (Inr (Some target_cert'),
                      (save_order (ordr\<lparr>order_status := Refunded\<rparr>) s1)
                        \<lparr>effects := effects s1 @ [RefundEmail (item_order target_cert')]\<rparr>))))"

section \<open>Discounts\<close>

subsection \<open>Float and decimal arithmetic of get\_discount\_price\<close>

text \<open>
  \<^verbatim>\<open>a / b\<close> on floats holding the integers \<open>a\<close> and \<open>b\<close>: the double nearest to the
  quotient, as mantissa and binary exponent, \<open>(m, e)\<close> standing for \<open>m * 2 ^ e\<close>. The
  mantissa has 53 bits. An integer below \<open>2 ^ 53\<close> in magnitude, such as the value of an
  \<^verbatim>\<open>IntegerField\<close>, converts to a float exactly; the exponent range of doubles is not
  reached by quotients of such integers.
\<close>

definition float_truediv :: "int \<Rightarrow> int \<Rightarrow> int \<times> int" where
  "float_truediv a b =
     (if a = 0 then (0, 0)
      else
        let t = int (digits_in_base 2 \<bar>a\<bar>) - int (digits_in_base 2 \<bar>b\<bar>);
            fl = (if (if 0 \<le> t then \<bar>b\<bar> * 2 ^ nat t \<le> \<bar>a\<bar> else \<bar>b\<bar> \<le> \<bar>a\<bar> * 2 ^ nat (- t))
                  then t else t - 1);
            e = fl - 52;
            m = round_half_even (\<bar>a\<bar> * 2 ^ nat (- e)) (\<bar>b\<bar> * 2 ^ nat e)
        in (sgn a * sgn b * m, e))"

text \<open>
  \<^verbatim>\<open>Decimal(f)\<close> of a float is exact: the float is written as \<open>n / 2 ^ k\<close> in lowest
  terms and becomes the coefficient \<open>n * 5 ^ k\<close> with decimal exponent \<open>- k\<close>.
\<close>

fun lowest_terms :: "int \<Rightarrow> nat \<Rightarrow> int \<times> nat" where
  "lowest_terms n 0 = (n, 0)"
| "lowest_terms n (Suc k) = (if even n then lowest_terms (n div 2) k else (n, Suc k))"

definition Decimal_from_float :: "int \<times> int \<Rightarrow> int \<times> int" where
  "Decimal_from_float f =
     (case f of (m, e) \<Rightarrow>
        if 0 \<le> e then (m * 2 ^ nat e, 0)
        else (case lowest_terms m (nat (- e)) of (n, k) \<Rightarrow> (n * 5 ^ k, - int k)))"

definition Decimal_mul :: "int \<times> int \<Rightarrow> int \<times> int \<Rightarrow> int \<times> int" where
  "Decimal_mul d1 d2 = context_round (fst d1 * fst d2, snd d1 + snd d2)"

text \<open>
  \<^verbatim>\<open>Decimal("{0:.2f}".format(d))\<close>: the decimal is rescaled to two places with the rounding
  of the context; the result is an amount in hundredths.
\<close>

definition format_2f :: "int \<times> int \<Rightarrow> money" where
  "format_2f d =
     (case d of (c, x) \<Rightarrow>
        if - 2 \<le> x then c * 10 ^ nat (x + 2) else round_half_even c (10 ^ nat (- 2 - x)))"

text \<open>
  \<^verbatim>\<open>value - discount\<close>: a subtraction of two amounts, rounded by the context as every
  operation on decimals is.
\<close>

definition get_discount_price :: "int \<Rightarrow> money \<Rightarrow> money" where
  "get_discount_price percentage value =
     (let discount = format_2f (Decimal_mul (Decimal_from_float (float_truediv percentage 100)) (value, - 2))
      in round_amount (value - discount))"

subsection \<open>Coupon redemption\<close>

definition delete_coupon_redemption :: "user_id \<Rightarrow> Order \<Rightarrow> store \<Rightarrow> store" where
  "delete_coupon_redemption user cart s =
     (if filter (\<lambda>r. cr_user r = user \<and> cr_order r = order_id cart) (couponredemptions s) \<noteq> []
      then s\<lparr>couponredemptions :=
              filter (\<lambda>r. \<not> (cr_user r = user \<and> cr_order r = order_id cart)) (couponredemptions s)\<rparr>
      else s)"

text \<open>The first loop of \<^verbatim>\<open>add_coupon_redemption\<close>: does some redemption of the order raise?\<close>

fun coupon_conflict :: "Coupon \<Rightarrow> CouponRedemption list \<Rightarrow> bool" where
  "coupon_conflict coupon [] = False"
| "coupon_conflict coupon (coupon_redemption # rest) =
     (if coupon_code (cr_coupon coupon_redemption) \<noteq> coupon_code coupon
         \<or> coupon_id (cr_coupon coupon_redemption) = coupon_id coupon
      then True else coupon_conflict coupon rest)"

text \<open>The second loop: the first item of the coupon's course is discounted.\<close>

fun apply_coupon :: "Coupon \<Rightarrow> Order \<Rightarrow> OrderItem list \<Rightarrow> store \<Rightarrow> bool \<times> store" where
  "apply_coupon coupon ordr [] s = (False, s)"
| "apply_coupon coupon ordr (item # rest) s =
     (case course_id item of
        None \<Rightarrow> apply_coupon coupon ordr rest s
      | Some c \<Rightarrow>
          if Some c = coupon_course_id coupon
          then (let s1 = s\<lparr>couponredemptions := couponredemptions s @
                              [\<lparr>cr_order = order_id ordr, cr_user = order_user ordr, cr_coupon = coupon\<rparr>]\<rparr>;
                    discount_price = get_discount_price (percentage_discount coupon) (unit_cost item)
                in (True, save_item (item\<lparr>list_price := Some (unit_cost item),
                                          unit_cost := discount_price\<rparr>) s1))
          else apply_coupon coupon ordr rest s)"

definition add_coupon_redemption ::
  "Coupon \<Rightarrow> Order \<Rightarrow> OrderItem list \<Rightarrow> store \<Rightarrow> (error + bool) \<times> store" where
  "add_coupon_redemption coupon ordr cart_items s =
     (if coupon_conflict coupon
           (filter (\<lambda>r. cr_order r = order_id ordr \<and> cr_user r = order_user ordr) (couponredemptions s))
      then (Inl MultipleCouponsNotAllowedException, s)
      else (case apply_coupon coupon ordr cart_items s of
              (is_redemption_applied, s') \<Rightarrow> (Inr is_redemption_applied, s')))"

subsection \<open>Registration code redemption\<close>

definition delete_registration_redemption :: "user_id \<Rightarrow> Order \<Rightarrow> store \<Rightarrow> store" where
  "delete_registration_redemption user cart s =
     (if filter (\<lambda>r. redeemed_by r = user \<and> redemption_order r = Some (order_id cart))
           (registrationcoderedemptions s) \<noteq> []
      then s\<lparr>registrationcoderedemptions :=
              filter (\<lambda>r. \<not> (redeemed_by r = user \<and> redemption_order r = Some (order_id cart)))
                (registrationcoderedemptions s)\<rparr>
      else s)"

fun reg_code_loop ::
  "CourseRegistrationCode \<Rightarrow> Order \<Rightarrow> OrderItem list \<Rightarrow> store
     \<Rightarrow> (error + CourseRegistrationCode) \<times> store" where
  "reg_code_loop course_reg_code ordr [] s = (Inl ItemDoesNotExistAgainstRegCodeException, s)"
| "reg_code_loop course_reg_code ordr (item # rest) s =
     (case course_id item of
        None \<Rightarrow> reg_code_loop course_reg_code ordr rest s
      | Some c \<Rightarrow>
          if Some c = regcode_course_id course_reg_code
          then (if filter (\<lambda>r. registration_code r = regcode_id course_reg_code)
                      (registrationcoderedemptions s) \<noteq> []
                then (Inl RegCodeAlreadyExistException, s)
                else (let s1 = s\<lparr>registrationcoderedemptions := registrationcoderedemptions s @
                                    [\<lparr>redemption_order = Some (order_id ordr),
                                      registration_code = regcode_id course_reg_code,
                                      redeemed_by = order_user ordr\<rparr>]\<rparr>
                      in (Inr course_reg_code,
                          save_item (item\<lparr>list_price := Some (unit_cost item), unit_cost := 0\<rparr>) s1)))
          else reg_code_loop course_reg_code ordr rest s)"

definition add_reg_code_redemption ::
  "CourseRegistrationCode \<Rightarrow> Order \<Rightarrow> store \<Rightarrow> (error + CourseRegistrationCode) \<times> store" where
  "add_reg_code_redemption course_reg_code ordr s =
     reg_code_loop course_reg_code ordr (orderitem_set ordr s) s"

text \<open>
  \<^verbatim>\<open>create_invoice_generated_registration_redemption\<close>: a redemption with no order.
\<close>

definition create_invoice_generated_registration_redemption ::
  "CourseRegistrationCode \<Rightarrow> user_id \<Rightarrow> store \<Rightarrow> store" where
  "create_invoice_generated_registration_redemption course_reg_code user s =
     s\<lparr>registrationcoderedemptions := registrationcoderedemptions s @
         [\<lparr>redemption_order = None, registration_code = regcode_id course_reg_code,
           redeemed_by = user\<rparr>]\<rparr>"

section \<open>Example data\<close>

text \<open>Orders and items of user 7, used to run the operations on concrete carts.\<close>

definition an_order :: "nat \<Rightarrow> status \<Rightarrow> OrderTypes \<Rightarrow> Order" where
  "an_order n st ty =
     \<lparr>order_id = n, order_user = 7, order_currency = ''usd'', order_status = st,
      purchase_time = None, refunded_time = None, bill_to_first = [], bill_to_last = [],
      bill_to_street1 = [], bill_to_street2 = [], bill_to_city = [], bill_to_state = [],
      bill_to_postalcode = [], bill_to_country = [], bill_to_ccnum = [], bill_to_cardtype = [],
      processor_reply_dump = [], order_type = ty\<rparr>"

definition an_item ::
  "nat \<Rightarrow> nat \<Rightarrow> status \<Rightarrow> item_kind \<Rightarrow> course_key option \<Rightarrow> int \<Rightarrow> money \<Rightarrow> money option \<Rightarrow> OrderItem" where
  "an_item n ord_n st cls c quantity cost lp =
     \<lparr>item_id = n, item_order = ord_n, item_user = 7, item_status = st, qty = quantity,
      unit_cost = cost, list_price = lp, line_desc = ''Misc. Item'', item_currency = ''usd'',
      fulfilled_time = None, refund_requested_time = None, service_fee = 0,
      report_comments = [], kind = cls, course_id = c,
      mode = (if cls = CertificateItem then ''verified'' else ''honor''),
      course_enrollment = (if cls = CertificateItem then Some 1 else None),
      donation_type = (if cls = Donation then ''general'' else [])\<rparr>"

definition a_store :: "Order list \<Rightarrow> OrderItem list \<Rightarrow> store" where
  "a_store os is =
     \<lparr>orders = os, orderitems = is, couponredemptions = [],
      registrationcoderedemptions = [], effects = []\<rparr>"

text \<open>A cart with two course seats, beside an item of another order.\<close>

definition cart_two_seats :: store where
  "cart_two_seats =
     a_store [an_order 1 Cart PERSONAL, an_order 2 Purchased PERSONAL]
       [an_item 1 1 Cart PaidCourseRegistration (Some ''course-A'') 1 5000 None,
        an_item 2 2 Purchased PaidCourseRegistration (Some ''course-C'') 1 3000 None,
        an_item 3 1 Cart PaidCourseRegistration (Some ''course-B'') 1 2000 None]"

text \<open>
  Collaborators for the examples: every course but \<open>gone\<close> exists, a seat costs 10.00 in
  the default mode, nobody is enrolled yet, billing details are not stored.
\<close>

definition an_env :: env where
  "an_env =
     \<lparr>get_course = (\<lambda>c. if c = None \<or> c = Some ''gone'' then None else Some ''Course''),
      has_course = (\<lambda>c. c \<noteq> None \<and> c \<noteq> Some ''gone''),
      mode_for_course = (\<lambda>c m. None),
      DEFAULT_MODE = \<lparr>slug = ''honor'', min_price = 1000, mode_currency = ''usd''\<rparr>,
      DEFAULT_MODE_SLUG = ''honor'',
      is_enrolled = (\<lambda>u c. False),
      STORE_BILLING_INFO = False,
      PaidCourseRegistrationAnnotation = [],
      CourseRegCodeItemAnnotation = []\<rparr>"

definition a_billing :: billing where
  "a_billing =
     \<lparr>arg_first = ''Ann'', arg_last = ''Lee'', arg_street1 = ''1 Main St'', arg_street2 = [],
      arg_city = ''Boston'', arg_state = ''MA'', arg_postalcode = ''02142'', arg_country = ''US'',
      arg_ccnum = ''1111'', arg_cardtype = ''001'', arg_processor_reply_dump = ''{}''\<rparr>"

definition a_coupon :: "nat \<Rightarrow> string \<Rightarrow> course_key option \<Rightarrow> int \<Rightarrow> Coupon" where
  "a_coupon n c_code c percentage =
     \<lparr>coupon_id = n, coupon_code = c_code, coupon_course_id = c, percentage_discount = percentage,
      coupon_created_by = 1, is_active = True\<rparr>"

definition a_reg_code :: "nat \<Rightarrow> string \<Rightarrow> course_key option \<Rightarrow> CourseRegistrationCode" where
  "a_reg_code n r_code c =
     \<lparr>regcode_id = n, regcode_code = r_code, regcode_course_id = c, regcode_created_by = 1,
      regcode_order = None, regcode_invoice = Some 1\<rparr>"

text \<open>
  The same cart after coupon 1 (code SAVE, 20 percent on course A) was redeemed on order 1
  and registration code 12 (course C) on the purchased order 2.
\<close>

definition cart_with_redemptions :: store where
  "cart_with_redemptions =
     cart_two_seats
       \<lparr>couponredemptions :=
          [\<lparr>cr_order = 1, cr_user = 7, cr_coupon = a_coupon 1 ''SAVE'' (Some ''course-A'') 20\<rparr>,
           \<lparr>cr_order = 2, cr_user = 7, cr_coupon = a_coupon 5 ''OLD'' (Some ''course-C'') 10\<rparr>],
        registrationcoderedemptions :=
          [\<lparr>redemption_order = Some 2, registration_code = 12, redeemed_by = 7\<rparr>,
           \<lparr>redemption_order = Some 1, registration_code = 13, redeemed_by = 7\<rparr>]\<rparr>"

text \<open>
  The comment on \<^verbatim>\<open>OrderItem.status\<close>: the status of an item should always be the status
  of its order.
\<close>

definition status_mirrors :: "store \<Rightarrow> bool" where
  "status_mirrors s =
     list_all (\<lambda>i. case find (\<lambda>r. order_id r = item_order i) (orders s) of
                      None \<Rightarrow> False
                    | Some r \<Rightarrow> item_status i = order_status r)
       (orderitems s)"

text \<open>A cart with a verified certificate and a donation.\<close>

definition cart_cert_and_donation :: store where
  "cart_cert_and_donation =
     a_store [an_order 3 Cart PERSONAL]
       [an_item 4 3 Cart CertificateItem (Some ''course-A'') 1 4000 None,
        an_item 5 3 Cart Donation None 1 1500 None]"

text \<open>A cart with one seat that costs nothing.\<close>

definition cart_free_seat :: store where
  "cart_free_seat =
     a_store [an_order 1 Cart PERSONAL]
       [an_item 1 1 Cart PaidCourseRegistration (Some ''course-A'') 1 0 None]"

text \<open>A cart with one seat of course A at 100.00.\<close>

definition cart_100_seat :: store where
  "cart_100_seat =
     a_store [an_order 1 Cart PERSONAL]
       [an_item 1 1 Cart PaidCourseRegistration (Some ''course-A'') 1 10000 None]"

text \<open>
  The rule of the specification for the discounted price: the value minus the exact
  discount \<open>value * percentage / 100\<close> rounded to the cent, a half cent rounded up (away from
  zero for a negative amount). Amounts are in hundredths.
\<close>

definition spec_round_half_up :: "int \<Rightarrow> int \<Rightarrow> int" where
  "spec_round_half_up n d = sgn n * ((2 * \<bar>n\<bar> + d) div (2 * d))"

definition spec_discount_price :: "int \<Rightarrow> money \<Rightarrow> money" where
  "spec_discount_price percentage value = value - spec_round_half_up (value * percentage) 100"

text \<open>
  A cart of the given order type with a seat of course A, quantity 1, and a seat of course
  B, quantity 3.
\<close>

definition cart_bulk :: "OrderTypes \<Rightarrow> store" where
  "cart_bulk ty =
     a_store [an_order 1 Cart ty]
       [an_item 1 1 Cart PaidCourseRegistration (Some ''course-A'') 1 5000 None,
        an_item 2 1 Cart PaidCourseRegistration (Some ''course-B'') 3 2000 None]"

text \<open>A cart with a donation of 100000000000000000000000000.01, an amount of 29 digits.\<close>

definition cart_huge_donation :: store where
  "cart_huge_donation =
     a_store [an_order 1 Cart PERSONAL]
       [an_item 1 1 Cart Donation None 1 10000000000000000000000000001 None]"

section \<open>Properties\<close>

subsection \<open>Saving rows\<close>

lemma save_item_other [simp]:
  "orders (save_item item s) = orders s"
  "couponredemptions (save_item item s) = couponredemptions s"
  "registrationcoderedemptions (save_item item s) = registrationcoderedemptions s"
  "effects (save_item item s) = effects s"
  by (simp_all add: save_item_def)

lemma save_order_other [simp]:
  "orderitems (save_order ordr s) = orderitems s"
  "couponredemptions (save_order ordr s) = couponredemptions s"
  "registrationcoderedemptions (save_order ordr s) = registrationcoderedemptions s"
  "effects (save_order ordr s) = effects s"
  by (simp_all add: save_order_def)

lemma save_item_present:
  assumes "distinct (map item_id (orderitems s))" "x \<in> set (orderitems s)" "item_id y = item_id x"
  shows "orderitems (save_item y s) = map (\<lambda>r. if r = x then y else r) (orderitems s)"
proof -
  have ex: "list_ex (\<lambda>r. item_id r = item_id y) (orderitems s)"
    using assms(2,3) by (auto simp: list_ex_iff)
  have "\<And>r. r \<in> set (orderitems s) \<Longrightarrow> (item_id r = item_id y) = (r = x)"
    using assms by (auto simp: distinct_map inj_on_def)
  then have "map (\<lambda>r. if item_id r = item_id y then y else r) (orderitems s)
             = map (\<lambda>r. if r = x then y else r) (orderitems s)"
    by (intro map_cong) auto
  with ex show ?thesis by (simp add: save_item_def)
qed

lemma fold_save_items:
  assumes "distinct (map item_id (orderitems s))" "set xs \<subseteq> set (orderitems s)"
    "distinct (map item_id xs)" "\<And>x. item_id (f x) = item_id x"
  shows "orderitems (fold (\<lambda>x. save_item (f x)) xs s)
         = map (\<lambda>r. if r \<in> set xs then f r else r) (orderitems s)"
  using assms(1-3)
proof (induction xs arbitrary: s)
  case Nil
  then show ?case by simp
next
  case (Cons x xs)
  let ?s1 = "save_item (f x) s"
  have x_in: "x \<in> set (orderitems s)" using Cons.prems by simp
  have rows1: "orderitems ?s1 = map (\<lambda>r. if r = x then f x else r) (orderitems s)"
    using save_item_present[OF Cons.prems(1) x_in assms(4)] .
  have ids1: "map item_id (orderitems ?s1) = map item_id (orderitems s)"
    by (simp add: rows1 assms(4) o_def if_distrib cong: if_cong)
  have notin: "item_id x \<notin> item_id ` set xs" using Cons.prems(3) by simp
  have sub1: "set xs \<subseteq> set (orderitems ?s1)"
  proof
    fix y assume y: "y \<in> set xs"
    then have "y \<noteq> x" using notin by auto
    moreover have "y \<in> set (orderitems s)" using y Cons.prems(2) by auto
    ultimately show "y \<in> set (orderitems ?s1)" unfolding rows1 by force
  qed
  have fx: "f x \<notin> set xs" using notin assms(4)[of x] by (metis imageI)
  have "orderitems (fold (\<lambda>x. save_item (f x)) xs ?s1)
        = map (\<lambda>r. if r \<in> set xs then f r else r) (orderitems ?s1)"
    using Cons.IH[of ?s1] ids1 Cons.prems(1,3) sub1 by simp
  also have "\<dots> = map (\<lambda>r. if r \<in> set (x # xs) then f r else r) (orderitems s)"
    unfolding rows1 using fx by (auto simp: o_def)
  finally show ?case by simp
qed

lemma fold_save_items_other [simp]:
  "orders (fold (\<lambda>x. save_item (f x)) xs s) = orders s"
  "couponredemptions (fold (\<lambda>x. save_item (f x)) xs s) = couponredemptions s"
  "registrationcoderedemptions (fold (\<lambda>x. save_item (f x)) xs s) = registrationcoderedemptions s"
  "effects (fold (\<lambda>x. save_item (f x)) xs s) = effects s"
  by (induction xs arbitrary: s; simp)+

lemma fold_save_filter:
  assumes "distinct (map item_id (orderitems s))" "\<And>x. item_id (f x) = item_id x"
  shows "orderitems (fold (\<lambda>x. save_item (f x)) (filter P (orderitems s)) s)
         = map (\<lambda>r. if P r then f r else r) (orderitems s)"
proof -
  have "orderitems (fold (\<lambda>x. save_item (f x)) (filter P (orderitems s)) s)
        = map (\<lambda>r. if r \<in> set (filter P (orderitems s)) then f r else r) (orderitems s)"
    using assms by (intro fold_save_items) (auto simp: distinct_map_filter)
  also have "\<dots> = map (\<lambda>r. if P r then f r else r) (orderitems s)"
    by (intro map_cong) auto
  finally show ?thesis .
qed

lemma start_purchase_loop_fold:
  "start_purchase_loop xs s = fold (\<lambda>x. save_item (x\<lparr>item_status := Paying\<rparr>)) xs s"
  by (induction xs arbitrary: s) (simp_all add: OrderItem_start_purchase_def)

subsection \<open>Decimal arithmetic\<close>

declare digits_in_base.simps [simp del]

lemma digits_in_base_nonpos: "n \<le> 0 \<Longrightarrow> digits_in_base b n = 0"
  by (simp add: digits_in_base.simps)

lemma digits_in_base_bounds:
  "0 < n \<Longrightarrow> 1 < b \<Longrightarrow> b ^ (digits_in_base b n - 1) \<le> n \<and> n < b ^ digits_in_base b n"
proof (induction b n rule: digits_in_base.induct)
  case (1 b n)
  let ?q = "n div b"
  have step: "digits_in_base b n = Suc (digits_in_base b ?q)"
    using "1.prems" by (subst digits_in_base.simps) simp
  have q0: "0 \<le> ?q" using "1.prems" by (simp add: pos_imp_zdiv_nonneg_iff)
  have nb: "b * ?q + n mod b = n" by (rule mult_div_mod_eq)
  have m: "0 \<le> n mod b" "n mod b < b" using "1.prems" by simp_all
  show ?case
  proof (cases "?q = 0")
    case True
    then have "n < b" using nb m by simp
    moreover have "digits_in_base b n = 1"
      using step True by (simp add: digits_in_base_nonpos)
    ultimately show ?thesis using "1.prems" by simp
  next
    case False
    then have qpos: "0 < ?q" using q0 by simp
    have IH: "b ^ (digits_in_base b ?q - 1) \<le> ?q \<and> ?q < b ^ digits_in_base b ?q"
      using "1.IH" "1.prems" qpos by simp
    have dpos: "0 < digits_in_base b ?q"
      using qpos "1.prems" by (subst digits_in_base.simps) simp
    then have pw: "b ^ digits_in_base b ?q = b * b ^ (digits_in_base b ?q - 1)"
      by (cases "digits_in_base b ?q") simp_all
    have "b * b ^ (digits_in_base b ?q - 1) \<le> b * ?q"
      using IH "1.prems" by (simp add: mult_left_mono)
    also have "\<dots> \<le> n" using nb m by linarith
    finally have lower: "b ^ (digits_in_base b n - 1) \<le> n"
      using step pw by simp
    have "?q + 1 \<le> b ^ digits_in_base b ?q" using IH by simp
    then have "b * (?q + 1) \<le> b * b ^ digits_in_base b ?q"
      using "1.prems" by (simp add: mult_left_mono)
    moreover have "n < b * (?q + 1)"
    proof -
      have "b * ?q + n mod b = n" by (rule mult_div_mod_eq)
      then have "n < b * ?q + b" using m(2) by linarith
      then show ?thesis by (simp add: algebra_simps)
    qed
    ultimately have upper: "n < b ^ digits_in_base b n" using step by simp
    from lower upper show ?thesis by simp
  qed
qed

lemma digits_in_base_le:
  assumes "n < b ^ k" "1 < b"
  shows "digits_in_base b n \<le> k"
proof (cases "0 < n")
  case False
  then show ?thesis by (simp add: digits_in_base_nonpos)
next
  case True
  from digits_in_base_bounds[OF True assms(2)] assms(1)
  have "b ^ (digits_in_base b n - 1) < b ^ k" by linarith
  then have "digits_in_base b n - 1 < k"
    using assms(2) by (simp add: power_strict_increasing_iff)
  then show ?thesis by simp
qed

lemma digits_in_base_eq:
  assumes "b ^ (k - 1) \<le> n" "n < b ^ k" "1 < b" "0 < k"
  shows "digits_in_base b n = k"
proof -
  have pos: "0 < n"
    using assms(1,3) by (smt (verit) zero_less_power)
  have le: "digits_in_base b n \<le> k" using assms(2,3) by (rule digits_in_base_le)
  from digits_in_base_bounds[OF pos assms(3)] assms(1)
  have "b ^ (k - 1) < b ^ digits_in_base b n" by linarith
  then have "k - 1 < digits_in_base b n"
    using assms(3) by (simp add: power_strict_increasing_iff)
  with le assms(4) show ?thesis by simp
qed

lemma context_round_large:
  assumes "10 ^ (n - 1) \<le> \<bar>c\<bar>" "\<bar>c\<bar> < 10 ^ n" "28 < n"
  shows "context_round (c, x) = (round_half_even c (10 ^ (n - 28)), x + int (n - 28))"
proof -
  have "digits_in_base 10 \<bar>c\<bar> = n"
    using assms by (intro digits_in_base_eq) simp_all
  then show ?thesis using assms(3) by (simp add: context_round_def)
qed

lemma context_round_small:
  assumes "\<bar>c\<bar> < 10 ^ 28"
  shows "context_round (c, x) = (c, x)"
proof -
  have "digits_in_base 10 \<bar>c\<bar> \<le> 28"
    using assms by (intro digits_in_base_le) simp_all
  then show ?thesis by (simp add: context_round_def)
qed

lemma round_amount_small: "\<bar>c\<bar> < 10 ^ 28 \<Longrightarrow> round_amount c = c"
  by (simp add: round_amount_def context_round_small)

subsection \<open>Order totals and the start of a purchase\<close>

lemma py_sum_exact:
  "\<bar>acc\<bar> + (\<Sum>x\<leftarrow>xs. \<bar>f x\<bar>) < 10 ^ 28 \<Longrightarrow>
     py_sum (map (\<lambda>x. round_amount (f x)) xs) acc = acc + (\<Sum>x\<leftarrow>xs. f x)"
proof (induction xs arbitrary: acc)
  case Nil
  then show ?case by simp
next
  case (Cons x xs)
  have nonneg: "0 \<le> (\<Sum>x\<leftarrow>xs. \<bar>f x\<bar>)" by (rule sum_list_nonneg) auto
  have "\<bar>f x\<bar> < 10 ^ 28" using Cons.prems nonneg by simp
  then have fx: "round_amount (f x) = f x" by (rule round_amount_small)
  have "\<bar>acc + f x\<bar> < 10 ^ 28" using Cons.prems nonneg by simp
  then have step: "round_amount (acc + f x) = acc + f x" by (rule round_amount_small)
  have "\<bar>acc + f x\<bar> + (\<Sum>x\<leftarrow>xs. \<bar>f x\<bar>) < 10 ^ 28" using Cons.prems by simp
  from Cons.IH[OF this] show ?case by (simp add: fx step)
qed

text \<open>
  Claim C8, as amended. The total cost of an order is the sum of the line costs over exactly
  the items of the order whose status equals the status of the order; items of the order
  with another status, and items of other orders, do not count. The sum is the sum of the
  decimal context: each product of quantity and unit cost and each partial sum is rounded to
  28 digits. When the magnitudes of the products of the counted items add up to less than
  \<open>10 ^ 28\<close> hundredths, it is the exact sum of quantity times unit cost.
\<close>

theorem total_cost_sums_matching_items:
  "total_cost ordr s =
     py_sum (map line_cost
       (filter (\<lambda>i. item_order i = order_id ordr \<and> item_status i = order_status ordr) (orderitems s))) 0 \<and>
   ((\<Sum>i\<leftarrow>filter (\<lambda>i. item_order i = order_id ordr \<and> item_status i = order_status ordr) (orderitems s).
        \<bar>qty i * unit_cost i\<bar>) < 10 ^ 28 \<longrightarrow>
    total_cost ordr s =
      (\<Sum>i\<leftarrow>filter (\<lambda>i. item_order i = order_id ordr \<and> item_status i = order_status ordr) (orderitems s).
         qty i * unit_cost i))"
proof -
  let ?xs = "filter (\<lambda>i. item_order i = order_id ordr \<and> item_status i = order_status ordr) (orderitems s)"
  have lc: "line_cost = (\<lambda>i. round_amount (qty i * unit_cost i))"
    by (simp add: fun_eq_iff line_cost_def)
  have tc: "total_cost ordr s = py_sum (map line_cost ?xs) 0"
    by (simp add: total_cost_def orderitem_set_def conj_commute cong: conj_cong)
  have "total_cost ordr s = (\<Sum>i\<leftarrow>?xs. qty i * unit_cost i)"
    if "(\<Sum>i\<leftarrow>?xs. \<bar>qty i * unit_cost i\<bar>) < 10 ^ 28"
    using py_sum_exact[of 0 "\<lambda>i. qty i * unit_cost i" ?xs] that unfolding tc lc by simp
  with tc show ?thesis by blast
qed

theorem total_cost_sums_matching_items_witness:
  "(\<Sum>i\<leftarrow>filter (\<lambda>i. item_order i = order_id (an_order 1 Cart PERSONAL) \<and>
                      item_status i = order_status (an_order 1 Cart PERSONAL)) (orderitems cart_two_seats).
        \<bar>qty i * unit_cost i\<bar>) < 10 ^ 28 \<and>
   total_cost (an_order 1 Cart PERSONAL) cart_two_seats = 7000 \<and>
   total_cost (an_order 1 Purchased PERSONAL) cart_two_seats = 0"
proof -
  let ?c = "an_order 1 Cart PERSONAL"
  let ?p = "an_order 1 Purchased PERSONAL"
  have a: "(\<Sum>i\<leftarrow>filter (\<lambda>i. item_order i = order_id ?c \<and> item_status i = order_status ?c)
              (orderitems cart_two_seats). \<bar>qty i * unit_cost i\<bar>) < 10 ^ 28"
    by code_simp
  have b: "(\<Sum>i\<leftarrow>filter (\<lambda>i. item_order i = order_id ?c \<and> item_status i = order_status ?c)
              (orderitems cart_two_seats). qty i * unit_cost i) = 7000"
    by code_simp
  have c: "(\<Sum>i\<leftarrow>filter (\<lambda>i. item_order i = order_id ?p \<and> item_status i = order_status ?p)
              (orderitems cart_two_seats). \<bar>qty i * unit_cost i\<bar>) < 10 ^ 28"
    by code_simp
  have d: "(\<Sum>i\<leftarrow>filter (\<lambda>i. item_order i = order_id ?p \<and> item_status i = order_status ?p)
              (orderitems cart_two_seats). qty i * unit_cost i) = 0"
    by code_simp
  have "total_cost ?c cart_two_seats = 7000"
    using total_cost_sums_matching_items[of ?c cart_two_seats] a b by simp
  moreover have "total_cost ?p cart_two_seats = 0"
    using total_cost_sums_matching_items[of ?p cart_two_seats] c d by simp
  ultimately show ?thesis using a by (intro conjI)
qed

text \<open>
  Claim C8 as stated fails beyond 28 digits: a donation of 100000000000000000000000000.01
  has a line cost, and the cart a total, of 100000000000000000000000000.00.
\<close>

theorem total_cost_rounds_counterexample:
  "total_cost (an_order 1 Cart PERSONAL) cart_huge_donation = 10000000000000000000000000000 \<and>
   (\<Sum>i\<leftarrow>filter (\<lambda>i. item_order i = order_id (an_order 1 Cart PERSONAL) \<and>
                      item_status i = order_status (an_order 1 Cart PERSONAL))
          (orderitems cart_huge_donation). qty i * unit_cost i) = 10000000000000000000000000001"
  by code_simp

text \<open>
  Claim C7. \<^verbatim>\<open>start_purchase\<close> changes nothing when the order is not a cart. On a
  cart it sets the status of the order to paying, saves it, and sets the status of every
  item of the order to paying; no other item and no other field changes. Item rows have
  distinct primary keys.
\<close>

theorem start_purchase_transitions:
  assumes "distinct (map item_id (orderitems s))"
  shows "(order_status ordr \<noteq> Cart \<longrightarrow> start_purchase ordr s = (ordr, s)) \<and>
         (order_status ordr = Cart \<longrightarrow>
            fst (start_purchase ordr s) = ordr\<lparr>order_status := Paying\<rparr> \<and>
            orders (snd (start_purchase ordr s)) = orders (save_order (ordr\<lparr>order_status := Paying\<rparr>) s) \<and>
            orderitems (snd (start_purchase ordr s)) =
              map (\<lambda>i. if item_order i = order_id ordr then i\<lparr>item_status := Paying\<rparr> else i) (orderitems s) \<and>
            list_all (\<lambda>i. item_status i = Paying) (orderitem_set ordr (snd (start_purchase ordr s))))"
proof -
  let ?o = "ordr\<lparr>order_status := Paying\<rparr>"
  let ?s1 = "save_order ?o s"
  let ?s2 = "start_purchase_loop (orderitem_set ?o ?s1) ?s1"
  have rows: "orderitems ?s2 =
      map (\<lambda>i. if item_order i = order_id ordr then i\<lparr>item_status := Paying\<rparr> else i) (orderitems s)"
    using fold_save_filter[of ?s1 "\<lambda>x. x\<lparr>item_status := Paying\<rparr>" "\<lambda>i. item_order i = order_id ordr"] assms
    by (simp add: start_purchase_loop_fold orderitem_set_def)
  have "\<And>t. orderitems t =
      map (\<lambda>i. if item_order i = order_id ordr then i\<lparr>item_status := Paying\<rparr> else i) (orderitems s)
      \<Longrightarrow> list_all (\<lambda>i. item_status i = Paying) (orderitem_set ordr t)"
    by (auto simp: orderitem_set_def list_all_iff)
  from this[OF rows] have all: "list_all (\<lambda>i. item_status i = Paying) (orderitem_set ordr ?s2)" .
  have ords: "orders ?s2 = orders ?s1"
    by (simp add: start_purchase_loop_fold)
  show ?thesis
    using rows all ords by (simp add: start_purchase_def Let_def)
qed

theorem start_purchase_transitions_witness:
  "distinct (map item_id (orderitems cart_two_seats)) \<and>
   order_status (an_order 1 Cart PERSONAL) = Cart \<and>
   map item_status (orderitems (snd (start_purchase (an_order 1 Cart PERSONAL) cart_two_seats)))
     = [Paying, Purchased, Paying] \<and>
   map order_status (orders (snd (start_purchase (an_order 1 Cart PERSONAL) cart_two_seats)))
     = [Paying, Purchased] \<and>
   start_purchase (an_order 2 Purchased PERSONAL) cart_two_seats = (an_order 2 Purchased PERSONAL, cart_two_seats)"
  using start_purchase_transitions[of cart_two_seats "an_order 1 Cart PERSONAL"]
        start_purchase_transitions[of cart_two_seats "an_order 2 Purchased PERSONAL"]
  by (simp add: cart_two_seats_def a_store_def an_order_def an_item_def save_order_def)

subsection \<open>A purchase is done once\<close>

lemma course_item_add_to_order_order:
  assumes "course_item_add_to_order ev cls q desc table ordr c ms cost cur s = (Inr (ordr', item), s')"
  shows "ordr' = ordr\<lparr>order_currency := order_currency ordr'\<rparr>"
  using assms unfolding course_item_add_to_order_def Let_def
  by (auto split: option.splits if_splits sum.splits prod.splits)

lemma to_bundle_items_order:
  "to_bundle_items ev ordr xs s = (Inr ordr', s') \<Longrightarrow> ordr' = ordr\<lparr>order_currency := order_currency ordr'\<rparr>"
proof (induction xs arbitrary: ordr s)
  case Nil
  then show ?case by simp
next
  case (Cons x xs)
  show ?case
  proof (cases "kind x = PaidCourseRegistration")
    case False
    with Cons show ?thesis by simp
  next
    case True
    with Cons.prems obtain o1 it s1 where
      a: "CourseRegCodeItem_add_to_order ev ordr (course_id x) (qty x) (DEFAULT_MODE_SLUG ev) None None s = (Inr (o1, it), s1)"
      and b: "to_bundle_items ev o1 xs s1 = (Inr ordr', s')"
      by (auto split: sum.splits prod.splits)
    from a have "o1 = ordr\<lparr>order_currency := order_currency o1\<rparr>"
      unfolding CourseRegCodeItem_add_to_order_def by (rule course_item_add_to_order_order)
    moreover from Cons.IH[OF b] have "ordr' = o1\<lparr>order_currency := order_currency ordr'\<rparr>" .
    ultimately show ?thesis by (metis Order.update_convs(3) Order.surjective Order.select_convs(3))
  qed
qed


lemma to_single_items_order:
  "to_single_items ev ordr xs s = (Inr ordr', s') \<Longrightarrow> ordr' = ordr\<lparr>order_currency := order_currency ordr'\<rparr>"
proof (induction xs arbitrary: ordr s)
  case Nil
  then show ?case by simp
next
  case (Cons x xs)
  show ?case
  proof (cases "kind x = CourseRegCodeItem")
    case False
    with Cons show ?thesis by simp
  next
    case True
    with Cons.prems obtain o1 it s1 where
      a: "PaidCourseRegistration_add_to_order ev ordr (course_id x) (DEFAULT_MODE_SLUG ev) None None s = (Inr (o1, it), s1)"
      and b: "to_single_items ev o1 xs s1 = (Inr ordr', s')"
      by (auto split: sum.splits prod.splits)
    from a have "o1 = ordr\<lparr>order_currency := order_currency o1\<rparr>"
      unfolding PaidCourseRegistration_add_to_order_def by (rule course_item_add_to_order_order)
    moreover from Cons.IH[OF b] have "ordr' = o1\<lparr>order_currency := order_currency ordr'\<rparr>" .
    ultimately show ?thesis by (metis Order.update_convs(3) Order.surjective Order.select_convs(3))
  qed
qed

lemma update_order_type_order:
  assumes "update_order_type ev ordr s = (Inr ordr', s')"
  shows "order_status ordr' = order_status ordr" "order_id ordr' = order_id ordr"
    "order_type ordr' = (if list_ex (\<lambda>i. 1 < qty i) (orderitem_set ordr s) then BUSINESS else PERSONAL)"
proof -
  let ?b = "list_ex (\<lambda>i. 1 < qty i) (orderitem_set ordr s)"
  obtain o1 s1 where
    a: "(if ?b then to_bundle_items ev ordr (orderitem_set ordr s) s
         else to_single_items ev ordr (orderitem_set ordr s) s) = (Inr o1, s1)"
    and b: "ordr' = o1\<lparr>order_type := (if ?b then BUSINESS else PERSONAL)\<rparr>"
    using assms unfolding update_order_type_def Let_def
    by (auto split: sum.splits prod.splits)
  have "o1 = ordr\<lparr>order_currency := order_currency o1\<rparr>"
    using a to_bundle_items_order to_single_items_order by (auto split: if_splits)
  then have "order_status o1 = order_status ordr" "order_id o1 = order_id ordr"
    by (metis Order.select_convs Order.surjective Order.update_convs(3))+
  with b show "order_status ordr' = order_status ordr" "order_id ordr' = order_id ordr"
    "order_type ordr' = (if ?b then BUSINESS else PERSONAL)"
    by simp_all
qed

lemma purchase_result_status:
  assumes "purchase ev now b ordr s = (Inr ordr', s')"
  shows "order_status ordr' = Purchased"
proof (cases "order_status ordr = Purchased")
  case True
  with assms show ?thesis by (simp add: purchase_def)
next
  case False
  define o2 where "o2 = (if STORE_BILLING_INFO ev
       then ordr\<lparr>order_status := Purchased, purchase_time := Some now,
                          bill_to_first := arg_first b, bill_to_last := arg_last b,
                          bill_to_city := arg_city b, bill_to_state := arg_state b,
                          bill_to_country := arg_country b, bill_to_postalcode := arg_postalcode b,
                  bill_to_street1 := arg_street1 b, bill_to_street2 := arg_street2 b,
                  bill_to_ccnum := arg_ccnum b, bill_to_cardtype := arg_cardtype b,
                  processor_reply_dump := arg_processor_reply_dump b\<rparr>
       else ordr\<lparr>order_status := Purchased, purchase_time := Some now,
                          bill_to_first := arg_first b, bill_to_last := arg_last b,
                          bill_to_city := arg_city b, bill_to_state := arg_state b,
                          bill_to_country := arg_country b, bill_to_postalcode := arg_postalcode b\<rparr>)"
  have st2: "order_status o2 = Purchased" by (simp add: o2_def)
  from assms False have
    "(if order_type o2 = BUSINESS then update_order_type ev o2 (save_order o2 s)
      else (Inr o2, save_order o2 s)) = (Inr ordr', snd (if order_type o2 = BUSINESS then update_order_type ev o2 (save_order o2 s)
      else (Inr o2, save_order o2 s)))"
    unfolding purchase_def Let_def o2_def
    by (auto split: sum.splits prod.splits option.splits if_splits)
  then show ?thesis
    using st2 update_order_type_order(1)[of ev o2 "save_order o2 s" ordr']
    by (auto split: if_splits)
qed

text \<open>
  Claim C1. A call of \<^verbatim>\<open>purchase\<close> on an order whose status is purchased returns at
  once: the order, every row and the list of effects are as before, so no item's
  \<^verbatim>\<open>purchased_callback\<close> runs. A call that succeeds leaves the order purchased, hence a second
  call after it, with whatever arguments, changes nothing and the fulfilment effects of the
  first call stay the only ones.
\<close>

theorem purchase_twice_is_noop:
  "(order_status ordr = Purchased \<longrightarrow> purchase ev now b ordr s = (Inr ordr, s)) \<and>
   (purchase ev now b ordr s = (Inr ordr', s') \<longrightarrow>
      order_status ordr' = Purchased \<and> purchase ev' now' b' ordr' s' = (Inr ordr', s'))"
proof (intro conjI impI)
  show "purchase ev now b ordr s = (Inr ordr, s)" if "order_status ordr = Purchased"
    using that by (simp add: purchase_def)
next
  assume a: "purchase ev now b ordr s = (Inr ordr', s')"
  then show "order_status ordr' = Purchased" by (rule purchase_result_status)
  then show "purchase ev' now' b' ordr' s' = (Inr ordr', s')" by (simp add: purchase_def)
qed

lemma purchase_example_succeeds:
  "\<not> isl (fst (purchase an_env 5 a_billing (an_order 1 Cart PERSONAL) cart_two_seats))"
  by code_simp

lemma purchase_example_effects:
  "effects (snd (purchase an_env 5 a_billing (an_order 1 Cart PERSONAL) cart_two_seats))
   = [Enroll 7 (Some ''course-A'') (Some ''honor''), Enroll 7 (Some ''course-B'') (Some ''honor''),
      ConfirmationEmails 1 False]"
  by code_simp

theorem purchase_twice_is_noop_witness:
  "effects (snd (purchase an_env 5 a_billing (an_order 1 Cart PERSONAL) cart_two_seats))
   = [Enroll 7 (Some ''course-A'') (Some ''honor''), Enroll 7 (Some ''course-B'') (Some ''honor''),
      ConfirmationEmails 1 False] \<and>
   purchase an_env 9 a_billing
     (projr (fst (purchase an_env 5 a_billing (an_order 1 Cart PERSONAL) cart_two_seats)))
     (snd (purchase an_env 5 a_billing (an_order 1 Cart PERSONAL) cart_two_seats))
   = (Inr (projr (fst (purchase an_env 5 a_billing (an_order 1 Cart PERSONAL) cart_two_seats))),
      snd (purchase an_env 5 a_billing (an_order 1 Cart PERSONAL) cart_two_seats)) \<and>
   purchase an_env 9 a_billing (an_order 2 Purchased PERSONAL) cart_two_seats
   = (Inr (an_order 2 Purchased PERSONAL), cart_two_seats)"
proof -
  let ?P = "purchase an_env 5 a_billing (an_order 1 Cart PERSONAL) cart_two_seats"
  have first: "?P = (Inr (projr (fst ?P)), snd ?P)"
    using purchase_example_succeeds by (metis prod.collapse sum.collapse(2))
  have again: "purchase an_env 9 a_billing (projr (fst ?P)) (snd ?P) = (Inr (projr (fst ?P)), snd ?P)"
    using first purchase_twice_is_noop[of "an_order 1 Cart PERSONAL" an_env 5 a_billing cart_two_seats
         "projr (fst ?P)" "snd ?P" an_env 9 a_billing]
    by blast
  have "order_status (an_order 2 Purchased PERSONAL) = Purchased"
    by (simp add: an_order_def)
  then have other: "purchase an_env 9 a_billing (an_order 2 Purchased PERSONAL) cart_two_seats
      = (Inr (an_order 2 Purchased PERSONAL), cart_two_seats)"
    using purchase_twice_is_noop[of "an_order 2 Purchased PERSONAL" an_env 9 a_billing cart_two_seats]
    by blast
  show ?thesis
    using purchase_example_effects again other by (intro conjI)
qed

subsection \<open>Redemptions\<close>

lemma coupon_conflict_iff:
  "coupon_conflict coupon rs =
     list_ex (\<lambda>r. coupon_code (cr_coupon r) \<noteq> coupon_code coupon \<or> coupon_id (cr_coupon r) = coupon_id coupon) rs"
  by (induction rs) auto

text \<open>
  Claim C3, as amended. \<^verbatim>\<open>add_coupon_redemption\<close> raises
  \<^verbatim>\<open>MultipleCouponsNotAllowedException\<close>, changing nothing, exactly when some redemption
  recorded for the order and its user has a coupon whose code differs from the code of the
  new coupon or whose id equals the id of the new coupon. So it raises when a coupon with
  another code was redeemed, and when the new coupon itself was redeemed. The code of a
  coupon is not unique: a new coupon that is another row with the code of the redeemed one
  is not a conflict.
\<close>

theorem coupon_conflict_boundary:
  "((add_coupon_redemption coupon ordr cart_items s = (Inl MultipleCouponsNotAllowedException, s)) =
     list_ex (\<lambda>r. cr_order r = order_id ordr \<and> cr_user r = order_user ordr \<and>
                   (coupon_code (cr_coupon r) \<noteq> coupon_code coupon \<or>
                    coupon_id (cr_coupon r) = coupon_id coupon))
       (couponredemptions s)) \<and>
   (list_ex (\<lambda>r. cr_order r = order_id ordr \<and> cr_user r = order_user ordr \<and>
                  coupon_code (cr_coupon r) \<noteq> coupon_code coupon) (couponredemptions s) \<longrightarrow>
      add_coupon_redemption coupon ordr cart_items s = (Inl MultipleCouponsNotAllowedException, s)) \<and>
   (list_ex (\<lambda>r. cr_order r = order_id ordr \<and> cr_user r = order_user ordr \<and>
                  cr_coupon r = coupon) (couponredemptions s) \<longrightarrow>
      add_coupon_redemption coupon ordr cart_items s = (Inl MultipleCouponsNotAllowedException, s))"
proof -
  have "coupon_conflict coupon
          (filter (\<lambda>r. cr_order r = order_id ordr \<and> cr_user r = order_user ordr) (couponredemptions s))
        = list_ex (\<lambda>r. cr_order r = order_id ordr \<and> cr_user r = order_user ordr \<and>
                   (coupon_code (cr_coupon r) \<noteq> coupon_code coupon \<or>
                    coupon_id (cr_coupon r) = coupon_id coupon)) (couponredemptions s)"
    unfolding coupon_conflict_iff list_ex_iff by auto
  then have iff: "(add_coupon_redemption coupon ordr cart_items s = (Inl MultipleCouponsNotAllowedException, s)) =
     list_ex (\<lambda>r. cr_order r = order_id ordr \<and> cr_user r = order_user ordr \<and>
                   (coupon_code (cr_coupon r) \<noteq> coupon_code coupon \<or>
                    coupon_id (cr_coupon r) = coupon_id coupon))
       (couponredemptions s)"
    by (auto simp: add_coupon_redemption_def split: prod.splits)
  show ?thesis
    unfolding iff by (auto simp: list_ex_iff)
qed

theorem coupon_conflict_boundary_witness:
  "add_coupon_redemption (a_coupon 2 ''OTHER'' (Some ''course-B'') 10) (an_order 1 Cart PERSONAL)
      (orderitem_set (an_order 1 Cart PERSONAL) cart_with_redemptions) cart_with_redemptions
     = (Inl MultipleCouponsNotAllowedException, cart_with_redemptions) \<and>
   add_coupon_redemption (a_coupon 1 ''SAVE'' (Some ''course-A'') 20) (an_order 1 Cart PERSONAL)
      (orderitem_set (an_order 1 Cart PERSONAL) cart_with_redemptions) cart_with_redemptions
     = (Inl MultipleCouponsNotAllowedException, cart_with_redemptions) \<and>
   add_coupon_redemption (a_coupon 3 ''SAVE'' (Some ''course-B'') 10) (an_order 1 Cart PERSONAL)
      (orderitem_set (an_order 1 Cart PERSONAL) cart_with_redemptions) cart_with_redemptions
     \<noteq> (Inl MultipleCouponsNotAllowedException, cart_with_redemptions)"
proof -
  let ?items = "orderitem_set (an_order 1 Cart PERSONAL) cart_with_redemptions"
  have rs: "couponredemptions cart_with_redemptions =
          [\<lparr>cr_order = 1, cr_user = 7, cr_coupon = a_coupon 1 ''SAVE'' (Some ''course-A'') 20\<rparr>,
           \<lparr>cr_order = 2, cr_user = 7, cr_coupon = a_coupon 5 ''OLD'' (Some ''course-C'') 10\<rparr>]"
    by (simp add: cart_with_redemptions_def)
  show ?thesis
    using coupon_conflict_boundary[of "a_coupon 2 ''OTHER'' (Some ''course-B'') 10" "an_order 1 Cart PERSONAL" ?items cart_with_redemptions]
      coupon_conflict_boundary[of "a_coupon 1 ''SAVE'' (Some ''course-A'') 20" "an_order 1 Cart PERSONAL" ?items cart_with_redemptions]
      coupon_conflict_boundary[of "a_coupon 3 ''SAVE'' (Some ''course-B'') 10" "an_order 1 Cart PERSONAL" ?items cart_with_redemptions]
    by (simp add: rs an_order_def a_coupon_def)
qed

text \<open>
  Claim C3 as stated fails for a different coupon with the same code. Order 1 has a
  redemption of coupon 1, code SAVE, for course A. Coupon 3, another row with the code SAVE,
  for course B, is accepted: the call returns true, records a second redemption for the order
  and discounts the seat of course B from 20.00 to 18.00.
\<close>

theorem same_code_other_coupon_accepted_counterexample:
  "map cr_coupon (filter (\<lambda>r. cr_order r = 1 \<and> cr_user r = 7) (couponredemptions cart_with_redemptions))
     = [a_coupon 1 ''SAVE'' (Some ''course-A'') 20] \<and>
   a_coupon 3 ''SAVE'' (Some ''course-B'') 10 \<noteq> a_coupon 1 ''SAVE'' (Some ''course-A'') 20 \<and>
   order_id (an_order 1 Cart PERSONAL) = 1 \<and> order_user (an_order 1 Cart PERSONAL) = 7 \<and>
   fst (add_coupon_redemption (a_coupon 3 ''SAVE'' (Some ''course-B'') 10) (an_order 1 Cart PERSONAL)
      (orderitem_set (an_order 1 Cart PERSONAL) cart_with_redemptions) cart_with_redemptions)
     = Inr True \<and>
   map cr_coupon (filter (\<lambda>r. cr_order r = 1 \<and> cr_user r = 7) (couponredemptions
      (snd (add_coupon_redemption (a_coupon 3 ''SAVE'' (Some ''course-B'') 10) (an_order 1 Cart PERSONAL)
         (orderitem_set (an_order 1 Cart PERSONAL) cart_with_redemptions) cart_with_redemptions))))
     = [a_coupon 1 ''SAVE'' (Some ''course-A'') 20, a_coupon 3 ''SAVE'' (Some ''course-B'') 10] \<and>
   map unit_cost (orderitems
      (snd (add_coupon_redemption (a_coupon 3 ''SAVE'' (Some ''course-B'') 10) (an_order 1 Cart PERSONAL)
         (orderitem_set (an_order 1 Cart PERSONAL) cart_with_redemptions) cart_with_redemptions)))
     = [5000, 3000, 1800]"
  by code_simp

lemma reg_code_loop_redeemed:
  assumes "filter (\<lambda>r. registration_code r = regcode_id code) (registrationcoderedemptions s) \<noteq> []"
  shows "reg_code_loop code ordr xs s =
           (if list_ex (\<lambda>i. course_id i \<noteq> None \<and> course_id i = regcode_course_id code) xs
            then Inl RegCodeAlreadyExistException
            else Inl ItemDoesNotExistAgainstRegCodeException, s)"
  using assms by (induction xs) (auto split: option.splits)

text \<open>
  Claim C2, as amended. When a registration code already has a redemption record, a call of
  \<^verbatim>\<open>add_reg_code_redemption\<close> with it against any order raises and changes nothing: no
  redemption is recorded and every item keeps its unit cost and list price. The exception is
  \<^verbatim>\<open>RegCodeAlreadyExistException\<close> when the order holds an item of the course of the code, and
  \<^verbatim>\<open>ItemDoesNotExistAgainstRegCodeException\<close> when it holds none: the check for an earlier
  redemption is made inside the loop, at a matching item.
\<close>

theorem redeemed_code_is_rejected:
  assumes "list_ex (\<lambda>r. registration_code r = regcode_id code) (registrationcoderedemptions s)"
  shows "add_reg_code_redemption code ordr s =
           (if list_ex (\<lambda>i. course_id i \<noteq> None \<and> course_id i = regcode_course_id code)
                 (orderitem_set ordr s)
            then Inl RegCodeAlreadyExistException
            else Inl ItemDoesNotExistAgainstRegCodeException, s)"
proof -
  from assms have "filter (\<lambda>r. registration_code r = regcode_id code) (registrationcoderedemptions s) \<noteq> []"
    by (auto simp: list_ex_iff filter_empty_conv)
  then show ?thesis
    unfolding add_reg_code_redemption_def by (rule reg_code_loop_redeemed)
qed

theorem redeemed_code_is_rejected_witness:
  "list_ex (\<lambda>r. registration_code r = regcode_id (a_reg_code 13 ''R13'' (Some ''course-A'')))
     (registrationcoderedemptions cart_with_redemptions) \<and>
   add_reg_code_redemption (a_reg_code 13 ''R13'' (Some ''course-A'')) (an_order 1 Cart PERSONAL)
     cart_with_redemptions = (Inl RegCodeAlreadyExistException, cart_with_redemptions) \<and>
   add_reg_code_redemption (a_reg_code 12 ''R12'' (Some ''course-C'')) (an_order 1 Cart PERSONAL)
     cart_with_redemptions = (Inl ItemDoesNotExistAgainstRegCodeException, cart_with_redemptions)"
proof -
  let ?c13 = "a_reg_code 13 ''R13'' (Some ''course-A'')"
  let ?c12 = "a_reg_code 12 ''R12'' (Some ''course-C'')"
  let ?o = "an_order 1 Cart PERSONAL"
  have h13: "list_ex (\<lambda>r. registration_code r = regcode_id ?c13)
     (registrationcoderedemptions cart_with_redemptions)"
    by code_simp
  have h12: "list_ex (\<lambda>r. registration_code r = regcode_id ?c12)
     (registrationcoderedemptions cart_with_redemptions)"
    by code_simp
  have i13: "list_ex (\<lambda>i. course_id i \<noteq> None \<and> course_id i = regcode_course_id ?c13)
     (orderitem_set ?o cart_with_redemptions)"
    by code_simp
  have i12: "\<not> list_ex (\<lambda>i. course_id i \<noteq> None \<and> course_id i = regcode_course_id ?c12)
     (orderitem_set ?o cart_with_redemptions)"
    by code_simp
  have "add_reg_code_redemption ?c13 ?o cart_with_redemptions
          = (Inl RegCodeAlreadyExistException, cart_with_redemptions)"
    using redeemed_code_is_rejected[OF h13, of ?o] i13 by simp
  moreover have "add_reg_code_redemption ?c12 ?o cart_with_redemptions
          = (Inl ItemDoesNotExistAgainstRegCodeException, cart_with_redemptions)"
    using redeemed_code_is_rejected[OF h12, of ?o] i12 by simp
  ultimately show ?thesis using h13 by (intro conjI)
qed

text \<open>
  Claim C2 as stated fails: code 12 has been redeemed, and a call with it against order 1,
  which has no item of course C, does not raise \<^verbatim>\<open>RegCodeAlreadyExistException\<close>.
\<close>

theorem redeemed_code_other_error_counterexample:
  "list_ex (\<lambda>r. registration_code r = regcode_id (a_reg_code 12 ''R12'' (Some ''course-C'')))
     (registrationcoderedemptions cart_with_redemptions) \<and>
   fst (add_reg_code_redemption (a_reg_code 12 ''R12'' (Some ''course-C'')) (an_order 1 Cart PERSONAL)
     cart_with_redemptions) \<noteq> Inl RegCodeAlreadyExistException"
  by code_simp

text \<open>
  Claim C9. \<^verbatim>\<open>delete_coupon_redemption\<close> and \<^verbatim>\<open>delete_registration_redemption\<close> remove
  the redemption rows of the given user and cart and nothing else: the other redemption rows,
  the orders and the items, with their unit cost and list price, are as before.
\<close>

theorem delete_redemption_frame:
  "orderitems (delete_coupon_redemption user cart s) = orderitems s \<and>
   orders (delete_coupon_redemption user cart s) = orders s \<and>
   registrationcoderedemptions (delete_coupon_redemption user cart s) = registrationcoderedemptions s \<and>
   effects (delete_coupon_redemption user cart s) = effects s \<and>
   couponredemptions (delete_coupon_redemption user cart s) =
     filter (\<lambda>r. \<not> (cr_user r = user \<and> cr_order r = order_id cart)) (couponredemptions s) \<and>
   orderitems (delete_registration_redemption user cart s) = orderitems s \<and>
   orders (delete_registration_redemption user cart s) = orders s \<and>
   couponredemptions (delete_registration_redemption user cart s) = couponredemptions s \<and>
   effects (delete_registration_redemption user cart s) = effects s \<and>
   registrationcoderedemptions (delete_registration_redemption user cart s) =
     filter (\<lambda>r. \<not> (redeemed_by r = user \<and> redemption_order r = Some (order_id cart)))
       (registrationcoderedemptions s)"
proof -
  have keep: "\<And>P xs. filter P xs = [] \<Longrightarrow> filter (\<lambda>r. \<not> P r) xs = xs"
    by (simp add: filter_empty_conv)
  show ?thesis
    unfolding delete_coupon_redemption_def delete_registration_redemption_def
    by (auto dest: keep)
qed

theorem delete_redemption_frame_witness:
  "map cr_order (couponredemptions (delete_coupon_redemption 7 (an_order 1 Cart PERSONAL) cart_with_redemptions)) = [2] \<and>
   map registration_code (registrationcoderedemptions
      (delete_registration_redemption 7 (an_order 1 Cart PERSONAL) cart_with_redemptions)) = [12] \<and>
   orderitems (delete_coupon_redemption 7 (an_order 1 Cart PERSONAL) cart_with_redemptions)
     = orderitems cart_with_redemptions \<and>
   orderitems (delete_registration_redemption 7 (an_order 1 Cart PERSONAL) cart_with_redemptions)
     = orderitems cart_with_redemptions"
  using delete_redemption_frame[of 7 "an_order 1 Cart PERSONAL" cart_with_redemptions]
  by (simp add: cart_with_redemptions_def an_order_def)

subsection \<open>Resetting prices\<close>

lemma reset_loop_fold:
  "reset_loop xs s =
     fold (\<lambda>x. save_item (case list_price x of None \<Rightarrow> x
                             | Some lp \<Rightarrow> x\<lparr>unit_cost := lp, list_price := None\<rparr>))
       (filter (\<lambda>x. case list_price x of None \<Rightarrow> False | Some lp \<Rightarrow> lp \<noteq> 0) xs) s"
  by (induction xs arbitrary: s) (auto split: option.splits)

lemma reset_cart_items_prices_rows:
  assumes "distinct (map item_id (orderitems s))"
  shows "orderitems (reset_cart_items_prices ordr s) =
           map (\<lambda>i. case list_price i of
                       None \<Rightarrow> i
                     | Some lp \<Rightarrow> if item_order i = order_id ordr \<and> lp \<noteq> 0
                                  then i\<lparr>unit_cost := lp, list_price := None\<rparr> else i)
             (orderitems s)"
proof -
  let ?f = "\<lambda>x. case list_price x of None \<Rightarrow> x | Some lp \<Rightarrow> x\<lparr>unit_cost := lp, list_price := None\<rparr>"
  let ?P = "\<lambda>x. item_order x = order_id ordr \<and> (case list_price x of None \<Rightarrow> False | Some lp \<Rightarrow> lp \<noteq> 0)"
  have id: "\<And>x. item_id (?f x) = item_id x" by (simp split: option.splits)
  have "reset_cart_items_prices ordr s = fold (\<lambda>x. save_item (?f x)) (filter ?P (orderitems s)) s"
    by (simp add: reset_cart_items_prices_def reset_loop_fold orderitem_set_def conj_commute
        cong: conj_cong)
  then have "orderitems (reset_cart_items_prices ordr s) = map (\<lambda>r. if ?P r then ?f r else r) (orderitems s)"
    using fold_save_filter[OF assms id, of ?P] by simp
  also have "\<dots> = map (\<lambda>i. case list_price i of
                       None \<Rightarrow> i
                     | Some lp \<Rightarrow> if item_order i = order_id ordr \<and> lp \<noteq> 0
                                  then i\<lparr>unit_cost := lp, list_price := None\<rparr> else i)
             (orderitems s)"
    by (intro map_cong) (auto split: option.splits)
  finally show ?thesis .
qed

lemma reset_cart_items_prices_other:
  "orders (reset_cart_items_prices ordr s) = orders s"
  "couponredemptions (reset_cart_items_prices ordr s) = couponredemptions s"
  "registrationcoderedemptions (reset_cart_items_prices ordr s) = registrationcoderedemptions s"
  "effects (reset_cart_items_prices ordr s) = effects s"
  by (simp_all add: reset_cart_items_prices_def reset_loop_fold)

lemma format_2f_zero: "format_2f (0, x) = 0"
  by (simp add: format_2f_def round_half_even_def)

lemma get_discount_price_zero: "get_discount_price percentage 0 = 0"
proof -
  have "Decimal_mul d (0, - 2) = (0, snd d - 2)" for d
    using context_round_small[of 0 "snd d - 2"] by (simp add: Decimal_mul_def)
  then show ?thesis by (simp add: get_discount_price_def format_2f_zero round_amount_small)
qed

lemma apply_coupon_cases:
  assumes "apply_coupon coupon ordr xs s = (b, s')"
  shows "(\<not> b \<and> s' = s) \<or>
         (b \<and> (\<exists>t\<in>set xs. s' =
            save_item (t\<lparr>list_price := Some (unit_cost t),
                          unit_cost := get_discount_price (percentage_discount coupon) (unit_cost t)\<rparr>)
              (s\<lparr>couponredemptions := couponredemptions s @
                    [\<lparr>cr_order = order_id ordr, cr_user = order_user ordr, cr_coupon = coupon\<rparr>]\<rparr>)))"
  using assms by (induction xs) (auto simp: Let_def split: option.splits if_splits)

lemma reg_code_loop_cases:
  assumes "reg_code_loop code ordr xs s = (Inr r, s')"
  shows "\<exists>t\<in>set xs. s' =
            save_item (t\<lparr>list_price := Some (unit_cost t), unit_cost := 0\<rparr>)
              (s\<lparr>registrationcoderedemptions := registrationcoderedemptions s @
                    [\<lparr>redemption_order = Some (order_id ordr),
                      registration_code = regcode_id code, redeemed_by = order_user ordr\<rparr>]\<rparr>)"
  using assms by (induction xs) (auto simp: Let_def split: option.splits if_splits)

lemma discount_then_reset:
  assumes d: "distinct (map item_id (orderitems s))"
    and t: "t \<in> set (orderitem_set ordr s)"
    and s0: "orderitems s0 = orderitems s"
    and zero: "unit_cost t = 0 \<Longrightarrow> dp = 0"
  shows "map unit_cost (orderitems (reset_cart_items_prices ordr
            (save_item (t\<lparr>list_price := Some (unit_cost t), unit_cost := dp\<rparr>) s0)))
         = map (\<lambda>i. if i = t then unit_cost t
                     else unit_cost (case list_price i of
                            None \<Rightarrow> i
                          | Some lp \<Rightarrow> if item_order i = order_id ordr \<and> lp \<noteq> 0
                                       then i\<lparr>unit_cost := lp, list_price := None\<rparr> else i))
             (orderitems s)"
proof -
  let ?t' = "t\<lparr>list_price := Some (unit_cost t), unit_cost := dp\<rparr>"
  let ?s1 = "save_item ?t' s0"
  let ?R = "\<lambda>i. case list_price i of
                       None \<Rightarrow> i
                     | Some lp \<Rightarrow> if item_order i = order_id ordr \<and> lp \<noteq> 0
                                  then i\<lparr>unit_cost := lp, list_price := None\<rparr> else i"
  have t_in: "t \<in> set (orderitems s0)" and t_ord: "item_order t = order_id ordr"
    using t s0 by (auto simp: orderitem_set_def)
  have rows1: "orderitems ?s1 = map (\<lambda>r. if r = t then ?t' else r) (orderitems s)"
    using save_item_present[of s0 t ?t'] d s0 t_in by simp
  have "map item_id (orderitems ?s1) = map item_id (orderitems s)"
    unfolding rows1 by (simp add: o_def if_distrib cong: if_cong)
  then have d1: "distinct (map item_id (orderitems ?s1))" using d by simp
  have "orderitems (reset_cart_items_prices ordr ?s1) = map ?R (orderitems ?s1)"
    using reset_cart_items_prices_rows[OF d1, of ordr] .
  then have "map unit_cost (orderitems (reset_cart_items_prices ordr ?s1))
        = map (\<lambda>r. unit_cost (?R (if r = t then ?t' else r))) (orderitems s)"
    by (simp add: rows1 o_def)
  also have "\<dots> = map (\<lambda>i. if i = t then unit_cost t else unit_cost (?R i)) (orderitems s)"
  proof (intro map_cong refl)
    fix r assume r: "r \<in> set (orderitems s)"
    show "unit_cost (?R (if r = t then ?t' else r)) = (if r = t then unit_cost t else unit_cost (?R r))"
      using t_ord zero by (cases "r = t") auto
  qed
  finally show ?thesis .
qed

text \<open>
  A discount followed by \<^verbatim>\<open>reset_cart_items_prices\<close>, on any cart whose item rows have
  distinct primary keys: the item that the redemption discounted has the unit cost it had
  before the redemption, and every other item is reset as it would have been without the
  redemption.
\<close>

lemma redemption_then_reset:
  assumes "distinct (map item_id (orderitems s))"
  shows "(add_coupon_redemption coupon ordr (orderitem_set ordr s) s = (Inr True, s1) \<longrightarrow>
            (\<exists>t\<in>set (orderitem_set ordr s).
               map unit_cost (orderitems (reset_cart_items_prices ordr s1)) =
                 map (\<lambda>i. if i = t then unit_cost t
                           else unit_cost (case list_price i of
                                  None \<Rightarrow> i
                                | Some lp \<Rightarrow> if item_order i = order_id ordr \<and> lp \<noteq> 0
                                             then i\<lparr>unit_cost := lp, list_price := None\<rparr> else i))
                   (orderitems s))) \<and>
         (add_reg_code_redemption code ordr s = (Inr code', s2) \<longrightarrow>
            (\<exists>t\<in>set (orderitem_set ordr s).
               map unit_cost (orderitems (reset_cart_items_prices ordr s2)) =
                 map (\<lambda>i. if i = t then unit_cost t
                           else unit_cost (case list_price i of
                                  None \<Rightarrow> i
                                | Some lp \<Rightarrow> if item_order i = order_id ordr \<and> lp \<noteq> 0
                                             then i\<lparr>unit_cost := lp, list_price := None\<rparr> else i))
                   (orderitems s)))"
proof (intro conjI impI)
  assume "add_coupon_redemption coupon ordr (orderitem_set ordr s) s = (Inr True, s1)"
  then have "apply_coupon coupon ordr (orderitem_set ordr s) s = (True, s1)"
    by (auto simp: add_coupon_redemption_def split: if_splits prod.splits)
  from apply_coupon_cases[OF this] obtain t where t: "t \<in> set (orderitem_set ordr s)"
    and s1: "s1 = save_item (t\<lparr>list_price := Some (unit_cost t),
                          unit_cost := get_discount_price (percentage_discount coupon) (unit_cost t)\<rparr>)
              (s\<lparr>couponredemptions := couponredemptions s @
                    [\<lparr>cr_order = order_id ordr, cr_user = order_user ordr, cr_coupon = coupon\<rparr>]\<rparr>)"
    by blast
  have "map unit_cost (orderitems (reset_cart_items_prices ordr s1)) =
          map (\<lambda>i. if i = t then unit_cost t
                    else unit_cost (case list_price i of
                           None \<Rightarrow> i
                         | Some lp \<Rightarrow> if item_order i = order_id ordr \<and> lp \<noteq> 0
                                      then i\<lparr>unit_cost := lp, list_price := None\<rparr> else i))
            (orderitems s)"
    unfolding s1 by (rule discount_then_reset[OF assms t]) (simp_all add: get_discount_price_zero)
  with t show "\<exists>t\<in>set (orderitem_set ordr s).
               map unit_cost (orderitems (reset_cart_items_prices ordr s1)) =
                 map (\<lambda>i. if i = t then unit_cost t
                           else unit_cost (case list_price i of
                                  None \<Rightarrow> i
                                | Some lp \<Rightarrow> if item_order i = order_id ordr \<and> lp \<noteq> 0
                                             then i\<lparr>unit_cost := lp, list_price := None\<rparr> else i))
                   (orderitems s)"
    by (rule bexI[rotated])
next
  assume "add_reg_code_redemption code ordr s = (Inr code', s2)"
  then have "reg_code_loop code ordr (orderitem_set ordr s) s = (Inr code', s2)"
    by (simp add: add_reg_code_redemption_def)
  from reg_code_loop_cases[OF this] obtain t where t: "t \<in> set (orderitem_set ordr s)"
    and s2: "s2 = save_item (t\<lparr>list_price := Some (unit_cost t), unit_cost := 0\<rparr>)
              (s\<lparr>registrationcoderedemptions := registrationcoderedemptions s @
                    [\<lparr>redemption_order = Some (order_id ordr),
                      registration_code = regcode_id code, redeemed_by = order_user ordr\<rparr>]\<rparr>)"
    by blast
  have "map unit_cost (orderitems (reset_cart_items_prices ordr s2)) =
          map (\<lambda>i. if i = t then unit_cost t
                    else unit_cost (case list_price i of
                           None \<Rightarrow> i
                         | Some lp \<Rightarrow> if item_order i = order_id ordr \<and> lp \<noteq> 0
                                      then i\<lparr>unit_cost := lp, list_price := None\<rparr> else i))
            (orderitems s)"
    unfolding s2 by (rule discount_then_reset[OF assms t]) simp_all
  with t show "\<exists>t\<in>set (orderitem_set ordr s).
               map unit_cost (orderitems (reset_cart_items_prices ordr s2)) =
                 map (\<lambda>i. if i = t then unit_cost t
                           else unit_cost (case list_price i of
                                  None \<Rightarrow> i
                                | Some lp \<Rightarrow> if item_order i = order_id ordr \<and> lp \<noteq> 0
                                             then i\<lparr>unit_cost := lp, list_price := None\<rparr> else i))
                   (orderitems s)"
    by (rule bexI[rotated])
qed

text \<open>
  Claim C10 at a list price of zero. The cart holds one seat of course A that costs 0.00.
  Redeeming a registration code for course A stores the old unit cost as the list price, so
  the list price is set, to 0.00. \<^verbatim>\<open>reset_cart_items_prices\<close> tests \<^verbatim>\<open>if item.list_price\<close>,
  which is false for 0.00 as it is for \<^verbatim>\<open>None\<close>: the item is skipped and its list price
  stays set, where the claim has it set to \<^verbatim>\<open>None\<close>. The unit cost, 0.00 before the
  redemption, is 0.00 after the reset.
\<close>

theorem reset_keeps_zero_list_price:
  "orderitems cart_free_seat =
     [an_item 1 1 Cart PaidCourseRegistration (Some ''course-A'') 1 0 None] \<and>
   orderitems (snd (add_reg_code_redemption (a_reg_code 21 ''R21'' (Some ''course-A''))
                      (an_order 1 Cart PERSONAL) cart_free_seat)) =
     [an_item 1 1 Cart PaidCourseRegistration (Some ''course-A'') 1 0 (Some 0)] \<and>
   orderitems (reset_cart_items_prices (an_order 1 Cart PERSONAL)
      (snd (add_reg_code_redemption (a_reg_code 21 ''R21'' (Some ''course-A''))
              (an_order 1 Cart PERSONAL) cart_free_seat))) =
     [an_item 1 1 Cart PaidCourseRegistration (Some ''course-A'') 1 0 (Some 0)]"
  by code_simp

subsection \<open>Status of items and orders\<close>

text \<open>
  Claim C6 on the refund of a certificate. A cart with a verified certificate and a donation
  is purchased: every item has the status of its order before and after. Then the enrollment
  is refunded: \<^verbatim>\<open>refund_cert_callback\<close> sets the certificate and the order to refunded and
  leaves the donation purchased, so the donation no longer has the status of its order.
\<close>

theorem refund_leaves_sibling_item_purchased:
  "status_mirrors cart_cert_and_donation \<and>
   status_mirrors (snd (purchase an_env 5 a_billing (an_order 3 Cart PERSONAL) cart_cert_and_donation)) \<and>
   \<not> status_mirrors
       (snd (refund_cert_callback 9 True 7 (Some ''course-A'')
          (snd (purchase an_env 5 a_billing (an_order 3 Cart PERSONAL) cart_cert_and_donation)))) \<and>
   map order_status (orders
       (snd (refund_cert_callback 9 True 7 (Some ''course-A'')
          (snd (purchase an_env 5 a_billing (an_order 3 Cart PERSONAL) cart_cert_and_donation)))))
     = [Refunded] \<and>
   map item_status (orderitems
       (snd (refund_cert_callback 9 True 7 (Some ''course-A'')
          (snd (purchase an_env 5 a_billing (an_order 3 Cart PERSONAL) cart_cert_and_donation)))))
     = [Refunded, Purchased]"
  by code_simp

subsection \<open>The discounted price\<close>

lemma round_half_even_scale:
  assumes "0 < k" "0 < d"
  shows "round_half_even (k * n) (k * d) = round_half_even n d"
proof -
  have q: "(k * n) div (k * d) = n div d" using assms by simp
  have r: "(k * n) mod (k * d) = k * (n mod d)" using assms by simp
  have "(2 * (k * (n mod d)) < k * d) = (2 * (n mod d) < d)"
    using assms(1) by (metis mult.left_commute mult_less_cancel_left_pos)
  moreover have "(k * d < 2 * (k * (n mod d))) = (d < 2 * (n mod d))"
    using assms(1) by (metis mult.left_commute mult_less_cancel_left_pos)
  ultimately show ?thesis
    unfolding round_half_even_def Let_def q r by simp
qed

lemma round_half_even_exact: "0 < d \<Longrightarrow> round_half_even (d * n) d = n"
  by (simp add: round_half_even_def)

lemma pct_0: "Decimal_from_float (float_truediv 0 100) = (0, 0)" by code_simp
lemma pct_25: "Decimal_from_float (float_truediv 25 100) = (25, - 2)" by code_simp
lemma pct_50: "Decimal_from_float (float_truediv 50 100) = (5, - 1)" by code_simp
lemma pct_75: "Decimal_from_float (float_truediv 75 100) = (75, - 2)" by code_simp
lemma pct_100: "Decimal_from_float (float_truediv 100 100) = (1, 0)" by code_simp

lemma round_half_even_error:
  assumes "0 < d"
  shows "\<bar>2 * (d * round_half_even n d - n)\<bar> \<le> d"
proof -
  define q where "q = n div d"
  define r where "r = n mod d"
  have n: "n = d * q + r" by (simp add: q_def r_def)
  have m: "0 \<le> r" "r < d" using assms by (simp_all add: r_def)
  have "round_half_even n d =
      (if 2 * r < d then q else if d < 2 * r then q + 1 else if even q then q else q + 1)"
    by (simp add: round_half_even_def q_def r_def Let_def)
  then have "d * round_half_even n d - n = - r \<or> d * round_half_even n d - n = d - r \<and> d \<le> 2 * r"
    unfolding n by (auto simp: algebra_simps)
  moreover have "2 * r \<le> d" if "d * round_half_even n d - n = - r"
  proof (rule ccontr)
    assume "\<not> 2 * r \<le> d"
    then have "round_half_even n d = q + 1"
      using \<open>round_half_even n d = _\<close> by simp
    then have "d * round_half_even n d - n = d - r" unfolding n by (simp add: algebra_simps)
    with that show False using assms by simp
  qed
  ultimately show ?thesis using m by auto
qed

lemma get_discount_price_unfold:
  "get_discount_price p v =
     round_amount (v - format_2f (Decimal_mul (Decimal_from_float (float_truediv p 100)) (v, - 2)))"
  by (simp add: get_discount_price_def)

lemma discount_no_rounding:
  assumes "\<bar>100 * d - p * v\<bar> \<le> 50" "0 \<le> p" "p \<le> 100" "\<bar>v\<bar> < 10 ^ 26"
  shows "round_amount (v - d) = v - d"
proof -
  have "\<bar>p * v\<bar> = p * \<bar>v\<bar>" using assms(2) by (simp add: abs_mult)
  also have "\<dots> \<le> 100 * \<bar>v\<bar>" using assms(3) by (simp add: mult_right_mono)
  finally have "\<bar>p * v\<bar> \<le> 100 * \<bar>v\<bar>" .
  then have "\<bar>d\<bar> \<le> \<bar>v\<bar> + 1" using assms(1) by linarith
  moreover have "\<bar>v\<bar> < 100000000000000000000000000" using assms(4) by simp
  ultimately have "\<bar>v - d\<bar> < 10000000000000000000000000000" by linarith
  then have "\<bar>v - d\<bar> < 10 ^ 28" by simp
  then show ?thesis by (rule round_amount_small)
qed

lemma get_discount_price_binary_fraction:
  assumes "percentage \<in> {0, 25, 50, 75, 100}" "\<bar>value\<bar> < 10 ^ 26"
  shows "get_discount_price percentage value = value - round_half_even (value * percentage) 100"
proof -
  let ?discount =
    "format_2f (Decimal_mul (Decimal_from_float (float_truediv percentage 100)) (value, - 2))"
  have small: "\<bar>k * value\<bar> < 10 ^ 28" if "0 \<le> k" "k \<le> 100" for k
  proof -
    have "\<bar>k * value\<bar> = k * \<bar>value\<bar>" using that by (simp add: abs_mult)
    also have "\<dots> \<le> 100 * \<bar>value\<bar>" using that by (simp add: mult_right_mono)
    also have "\<dots> < 10 ^ 28" using assms(2) by simp
    finally show ?thesis .
  qed
  consider "percentage = 0" | "percentage = 25" | "percentage = 50" | "percentage = 75"
    | "percentage = 100" using assms(1) by auto
  then have discount: "?discount = round_half_even (value * percentage) 100"
  proof cases
    case 1
    then show ?thesis
      using context_round_small[of 0 "- 2"]
      by (simp add: pct_0 Decimal_mul_def format_2f_def round_half_even_def)
  next
    case 2
    have "format_2f (context_round (25 * value, - 4)) = round_half_even (25 * value) 100"
      using context_round_small[OF small[of 25], of "- 4"] by (simp add: format_2f_def)
    then show ?thesis
      using 2 by (simp add: pct_25 Decimal_mul_def mult.commute)
  next
    case 3
    have "format_2f (context_round (5 * value, - 3)) = round_half_even (5 * value) 10"
      using context_round_small[OF small[of 5], of "- 3"] by (simp add: format_2f_def)
    moreover have "round_half_even (10 * (5 * value)) (10 * 10) = round_half_even (5 * value) 10"
      by (rule round_half_even_scale) simp_all
    ultimately show ?thesis
      using 3 by (simp add: pct_50 Decimal_mul_def mult.commute)
  next
    case 4
    have "format_2f (context_round (75 * value, - 4)) = round_half_even (75 * value) 100"
      using context_round_small[OF small[of 75], of "- 4"] by (simp add: format_2f_def)
    then show ?thesis
      using 4 by (simp add: pct_75 Decimal_mul_def mult.commute)
  next
    case 5
    have "format_2f (context_round (value, - 2)) = value"
      using context_round_small[OF small[of 1], of "- 2"] by (simp add: format_2f_def)
    moreover have "round_half_even (100 * value) 100 = value"
      by (rule round_half_even_exact) simp
    ultimately show ?thesis
      using 5 by (simp add: pct_100 Decimal_mul_def mult.commute)
  qed
  have pct: "0 \<le> percentage" "percentage \<le> 100" using assms(1) by auto
  have "\<bar>2 * (100 * round_half_even (value * percentage) 100 - value * percentage)\<bar> \<le> 100"
    by (rule round_half_even_error) simp
  then have "\<bar>100 * round_half_even (value * percentage) 100 - percentage * value\<bar> \<le> 50"
    by (simp add: mult.commute)
  from discount_no_rounding[OF this pct assms(2)] show ?thesis
    by (simp only: get_discount_price_unfold discount)
qed

lemma coupon_example:
  "add_coupon_redemption (a_coupon 1 ''SAVE'' (Some ''course-A'') 20) (an_order 1 Cart PERSONAL)
      (orderitem_set (an_order 1 Cart PERSONAL) cart_100_seat) cart_100_seat
   = (Inr True,
      cart_100_seat
        \<lparr>orderitems := [an_item 1 1 Cart PaidCourseRegistration (Some ''course-A'') 1 8000 (Some 10000)],
         couponredemptions := [\<lparr>cr_order = 1, cr_user = 7,
                                 cr_coupon = a_coupon 1 ''SAVE'' (Some ''course-A'') 20\<rparr>]\<rparr>)"
  by code_simp

lemma percentage_floats:
  "list_all (\<lambda>p. case Decimal_from_float (float_truediv p 100) of
                   (c, x) \<Rightarrow> 0 \<le> c \<and> x \<le> 0 \<and> c \<le> 10 ^ nat (- x) \<and>
                      2 ^ 53 * \<bar>100 * c - p * 10 ^ nat (- x)\<bar> \<le> 100 * 10 ^ nat (- x))
     [0..100]"
  by code_simp

lemma float_error_bound:
  fixes z T :: int
  assumes "9007199254740992 * \<bar>z\<bar> \<le> 1000000000000000 * T"
  shows "8 * \<bar>z\<bar> \<le> T"
  using assms by linarith

lemma weighted_sum_bound:
  fixes a b c w T :: int
  assumes "w \<le> 100 * a + 100 * b + c" "2 * a \<le> T" "400 * b \<le> T" "8 * c \<le> T"
  shows "8 * w \<le> 403 * T"
  using assms by linarith

lemma three_errors_bound:
  fixes x y z T :: int
  assumes "2 * \<bar>x\<bar> \<le> T" "400 * \<bar>y\<bar> \<le> T" "8 * \<bar>z\<bar> \<le> T"
  shows "8 * \<bar>100 * x + 100 * y + z\<bar> \<le> 403 * T"
proof -
  have "\<bar>100 * x + 100 * y + z\<bar> \<le> 100 * \<bar>x\<bar> + 100 * \<bar>y\<bar> + \<bar>z\<bar>" by linarith
  then show ?thesis using assms by (rule weighted_sum_bound)
qed

lemma half_cent_bound:
  fixes w :: int
  assumes "8 * w \<le> 403"
  shows "w \<le> 50"
  using assms by presburger

lemma context_round_cases:
  assumes "\<bar>C\<bar> < 10 ^ (j + 13)"
  shows "\<exists>s C'. context_round (C, x) = (C', x + int s) \<and>
           (s = 0 \<and> C' = C \<or> 0 < s \<and> s + 15 \<le> j \<and> \<bar>2 * (10 ^ s * C' - C)\<bar> \<le> 10 ^ s)"
proof (cases "28 < digits_in_base 10 \<bar>C\<bar>")
  case False
  then have "context_round (C, x) = (C, x + int 0)" by (simp add: context_round_def)
  then show ?thesis by blast
next
  case True
  define d where "d = digits_in_base 10 \<bar>C\<bar>"
  define s where "s = d - 28"
  have pos: "0 < \<bar>C\<bar>"
    using True digits_in_base_nonpos[of "\<bar>C\<bar>" 10] by (cases "0 < \<bar>C\<bar>") auto
  have "(10::int) ^ (d - 1) \<le> \<bar>C\<bar>"
    using digits_in_base_bounds[OF pos, of 10] by (simp add: d_def)
  then have "(10::int) ^ (d - 1) < 10 ^ (j + 13)" using assms by linarith
  then have "d - 1 < j + 13" by (simp add: power_strict_increasing_iff)
  then have sj: "0 < s" "s + 15 \<le> j" using True by (simp_all add: s_def d_def)
  have "context_round (C, x) = (round_half_even C (10 ^ s), x + int s)"
    using True by (simp add: context_round_def s_def d_def Let_def)
  moreover have "\<bar>2 * (10 ^ s * round_half_even C (10 ^ s) - C)\<bar> \<le> 10 ^ s"
    by (rule round_half_even_error) simp
  ultimately show ?thesis using sj by blast
qed

lemma format_2f_error:
  assumes "s \<le> j"
  shows "\<bar>2 * (10 ^ (j - s) * format_2f (C', - int j - 2 + int s) - C')\<bar> \<le> 10 ^ (j - s)"
proof (cases "s = j")
  case True
  then show ?thesis by (simp add: format_2f_def)
next
  case False
  then have "s < j" using assms by simp
  then have "format_2f (C', - int j - 2 + int s) = round_half_even C' (10 ^ (j - s))"
    by (simp add: format_2f_def nat_diff_distrib' of_nat_diff)
  moreover have "\<bar>2 * (10 ^ (j - s) * round_half_even C' (10 ^ (j - s)) - C')\<bar> \<le> 10 ^ (j - s)"
    by (rule round_half_even_error) simp
  ultimately show ?thesis by simp
qed

lemma get_discount_price_nearest_cent:
  assumes "0 \<le> p" "p \<le> 100" "\<bar>v\<bar> < 10 ^ 13"
  shows "\<bar>100 * (v - get_discount_price p v) - p * v\<bar> \<le> 50"
proof -
  obtain c x where cx: "Decimal_from_float (float_truediv p 100) = (c, x)" by fastforce
  have "p \<in> set [0..100]" using assms by simp
  then have "case Decimal_from_float (float_truediv p 100) of
                   (c, x) \<Rightarrow> 0 \<le> c \<and> x \<le> 0 \<and> c \<le> 10 ^ nat (- x) \<and>
                      2 ^ 53 * \<bar>100 * c - p * 10 ^ nat (- x)\<bar> \<le> 100 * 10 ^ nat (- x)"
    by (rule bspec[OF percentage_floats[unfolded list_all_iff]])
  then have props: "0 \<le> c" "x \<le> 0" "c \<le> 10 ^ nat (- x)"
    "2 ^ 53 * \<bar>100 * c - p * 10 ^ nat (- x)\<bar> \<le> 100 * 10 ^ nat (- x)"
    unfolding cx by simp_all
  define j where "j = nat (- x)"
  define T :: int where "T = 10 ^ j"
  define C where "C = c * v"
  have x: "x = - int j" using props(2) by (simp add: j_def)
  have Tpos: "0 < T" by (simp add: T_def)
  have cT: "c \<le> T" and fl: "2 ^ 53 * \<bar>100 * c - p * T\<bar> \<le> 100 * T"
    using props(3,4) by (simp_all add: T_def j_def)
  have "\<bar>C\<bar> = c * \<bar>v\<bar>" using props(1) by (simp add: C_def abs_mult)
  also have "\<dots> \<le> T * \<bar>v\<bar>" using cT by (simp add: mult_right_mono)
  also have "\<dots> < T * 10 ^ 13" using assms(3) Tpos by (simp add: mult_strict_left_mono)
  finally have Cb: "\<bar>C\<bar> < 10 ^ (j + 13)" by (simp add: T_def power_add)
  from context_round_cases[OF Cb, of "- int j - 2"] obtain s C' where
    ctx: "context_round (C, - int j - 2) = (C', - int j - 2 + int s)"
    and sc: "s = 0 \<and> C' = C \<or> 0 < s \<and> s + 15 \<le> j \<and> \<bar>2 * (10 ^ s * C' - C)\<bar> \<le> 10 ^ s"
    by blast
  define cents where "cents = format_2f (C', - int j - 2 + int s)"
  have gdp: "get_discount_price p v = round_amount (v - cents)"
    using ctx by (simp add: get_discount_price_def cx Decimal_mul_def x C_def cents_def)
  have sj: "s \<le> j" using sc by auto
  define a :: int where "a = 10 ^ (j - s)"
  define b :: int where "b = 10 ^ s"
  have ab: "T = b * a" using sj by (simp add: T_def a_def b_def flip: power_add)
  have bpos: "0 < b" by (simp add: b_def)
  have e1: "\<bar>2 * (a * cents - C')\<bar> \<le> a"
    using format_2f_error[OF sj, of C'] by (simp add: a_def cents_def)
  have "2 * (T * cents - b * C') = b * (2 * (a * cents - C'))"
    by (simp add: ab algebra_simps)
  then have "\<bar>2 * (T * cents - b * C')\<bar> = b * \<bar>2 * (a * cents - C')\<bar>"
    using bpos by (simp only: abs_mult abs_of_pos)
  also have "\<dots> \<le> b * a" using e1 bpos by (simp add: mult_left_mono)
  finally have e1': "\<bar>2 * (T * cents - b * C')\<bar> \<le> T" by (simp add: ab)
  have e2: "10 ^ 15 * \<bar>2 * (b * C' - C)\<bar> \<le> T"
  proof (cases "s = 0")
    case True
    then show ?thesis using sc Tpos by (simp add: b_def)
  next
    case False
    then have s15: "s + 15 \<le> j" and r: "\<bar>2 * (b * C' - C)\<bar> \<le> b" using sc by (simp_all add: b_def)
    have "10 ^ 15 * \<bar>2 * (b * C' - C)\<bar> \<le> 10 ^ 15 * b" using r by simp
    also have "\<dots> = 10 ^ (s + 15)" by (simp add: b_def power_add)
    also have "\<dots> \<le> T" unfolding T_def using s15 by (intro power_increasing) simp_all
    finally show ?thesis .
  qed
  have "100 * C - p * v * T = v * (100 * c - p * T)"
    by (simp add: C_def algebra_simps)
  then have "\<bar>100 * C - p * v * T\<bar> = \<bar>v\<bar> * \<bar>100 * c - p * T\<bar>"
    by (simp only: abs_mult)
  then have "2 ^ 53 * \<bar>100 * C - p * v * T\<bar> = \<bar>v\<bar> * (2 ^ 53 * \<bar>100 * c - p * T\<bar>)"
    by simp
  also have "\<dots> \<le> \<bar>v\<bar> * (100 * T)" using fl by (simp add: mult_left_mono)
  also have "\<dots> \<le> 10 ^ 13 * (100 * T)" using assms(3) Tpos by (simp add: mult_right_mono)
  finally have e3: "2 ^ 53 * \<bar>100 * C - p * v * T\<bar> \<le> 10 ^ 15 * T" by simp
  define A where "A = T * cents"
  define B where "B = b * C'"
  define D where "D = p * v * T"
  have "1000000000000000 * \<bar>2 * (b * C' - C)\<bar> \<le> T"
    using e2 by simp
  then have h2: "400 * \<bar>B - C\<bar> \<le> T" unfolding B_def by linarith
  have "9007199254740992 * \<bar>100 * C - D\<bar> \<le> 1000000000000000 * T"
    using e3 unfolding D_def by simp
  then have h3: "8 * \<bar>100 * C - D\<bar> \<le> T" by (rule float_error_bound)
  have h1: "2 * \<bar>A - B\<bar> \<le> T"
    using e1' unfolding A_def B_def by linarith
  have "100 * (A - B) + 100 * (B - C) + (100 * C - D) = 100 * A - D" by simp
  then have "8 * \<bar>100 * A - D\<bar> \<le> 403 * T"
    using three_errors_bound[OF h1 h2 h3] by simp
  moreover have "100 * A - D = T * (100 * cents - p * v)"
    by (simp add: A_def D_def algebra_simps)
  ultimately have "T * (8 * \<bar>100 * cents - p * v\<bar>) \<le> T * 403"
    using Tpos by (simp add: abs_mult)
  then have "8 * \<bar>100 * cents - p * v\<bar> \<le> 403" using Tpos by simp
  then have near: "\<bar>100 * cents - p * v\<bar> \<le> 50" by (rule half_cent_bound)
  have "\<bar>v\<bar> < 10 ^ 26" using assms(3) by simp
  from discount_no_rounding[OF near assms(1,2) this]
  have "get_discount_price p v = v - cents" by (simp only: gdp)
  with near show ?thesis by simp
qed

text \<open>
  Claim C4, as amended. The discounted price is the value minus a discount in whole cents.
  The discount is the product of the value and the float \<^verbatim>\<open>percentage / 100.00\<close>, rounded
  by the decimal context to 28 digits and then to the cent, a half cent going to the even
  neighbour and not up. For a percentage from 0 to 100 and a value below \<open>10 ^ 13\<close> cents the
  discount is within half a cent of \<open>value * percentage / 100\<close>. For the percentages 0, 25,
  50, 75 and 100, whose hundredth is a binary fraction, the discount is
  \<open>value * percentage / 100\<close> rounded half-even. A redemption that applies stores the old
  unit cost as the list price of the item and the discounted price as its unit cost; 20
  percent of 100.00 leaves 80.00.
\<close>

theorem coupon_discount_price:
  "(0 \<le> percentage \<and> percentage \<le> 100 \<and> \<bar>value\<bar> < 10 ^ 13 \<longrightarrow>
      \<bar>100 * (value - get_discount_price percentage value) - percentage * value\<bar> \<le> 50) \<and>
   (percentage \<in> {0, 25, 50, 75, 100} \<and> \<bar>value\<bar> < 10 ^ 26 \<longrightarrow>
      get_discount_price percentage value = value - round_half_even (value * percentage) 100) \<and>
   (add_coupon_redemption coupon ordr cart_items s = (Inr True, s') \<longrightarrow>
      (\<exists>item\<in>set cart_items. s' =
         save_item (item\<lparr>list_price := Some (unit_cost item),
                          unit_cost := get_discount_price (percentage_discount coupon) (unit_cost item)\<rparr>)
           (s\<lparr>couponredemptions := couponredemptions s @
                 [\<lparr>cr_order = order_id ordr, cr_user = order_user ordr, cr_coupon = coupon\<rparr>]\<rparr>))) \<and>
   get_discount_price 20 10000 = 8000"
proof (intro conjI impI)
  assume "0 \<le> percentage \<and> percentage \<le> 100 \<and> \<bar>value\<bar> < 10 ^ 13"
  then show "\<bar>100 * (value - get_discount_price percentage value) - percentage * value\<bar> \<le> 50"
    using get_discount_price_nearest_cent[of percentage "value"] by blast
next
  assume "percentage \<in> {0, 25, 50, 75, 100} \<and> \<bar>value\<bar> < 10 ^ 26"
  then show "get_discount_price percentage value = value - round_half_even (value * percentage) 100"
    using get_discount_price_binary_fraction[of percentage "value"] by blast
next
  assume "add_coupon_redemption coupon ordr cart_items s = (Inr True, s')"
  then have "apply_coupon coupon ordr cart_items s = (True, s')"
    by (auto simp: add_coupon_redemption_def split: if_splits prod.splits)
  from apply_coupon_cases[OF this]
  show "\<exists>item\<in>set cart_items. s' =
         save_item (item\<lparr>list_price := Some (unit_cost item),
                          unit_cost := get_discount_price (percentage_discount coupon) (unit_cost item)\<rparr>)
           (s\<lparr>couponredemptions := couponredemptions s @
                 [\<lparr>cr_order = order_id ordr, cr_user = order_user ordr, cr_coupon = coupon\<rparr>]\<rparr>)"
    by blast
next
  show "get_discount_price 20 10000 = 8000" by code_simp
qed

theorem coupon_discount_price_witness:
  "\<bar>100 * (10000 - get_discount_price 20 10000) - 20 * 10000\<bar> \<le> 50 \<and>
   get_discount_price 20 10000 = 8000 \<and>
   get_discount_price 50 3 = 1 \<and>
   get_discount_price 50 1 = 1 \<and>
   add_coupon_redemption (a_coupon 1 ''SAVE'' (Some ''course-A'') 20) (an_order 1 Cart PERSONAL)
      (orderitem_set (an_order 1 Cart PERSONAL) cart_100_seat) cart_100_seat
   = (Inr True,
      cart_100_seat
        \<lparr>orderitems := [an_item 1 1 Cart PaidCourseRegistration (Some ''course-A'') 1 8000 (Some 10000)],
         couponredemptions := [\<lparr>cr_order = 1, cr_user = 7,
                                 cr_coupon = a_coupon 1 ''SAVE'' (Some ''course-A'') 20\<rparr>]\<rparr>)"
proof -
  have a: "\<bar>100 * (10000 - get_discount_price 20 10000) - 20 * 10000\<bar> \<le> 50"
    using coupon_discount_price[of 20 10000] by simp
  have b: "get_discount_price 20 10000 = 8000"
    using coupon_discount_price[of 20 10000] by blast
  have "get_discount_price 50 3 = 3 - round_half_even (3 * 50) 100"
    using coupon_discount_price[of 50 3] by simp
  then have c: "get_discount_price 50 3 = 1" by (simp add: round_half_even_def)
  have "get_discount_price 50 1 = 1 - round_half_even (1 * 50) 100"
    using coupon_discount_price[of 50 1] by simp
  then have d: "get_discount_price 50 1 = 1" by (simp add: round_half_even_def)
  show ?thesis using a b c d coupon_example by (intro conjI)
qed

text \<open>
  Claim C4 as stated fails. Half of 0.01 is a tie, which the code rounds to the even 0.00
  where the rule of the claim rounds up to 0.01. For 15 percent of 0.10 the float below 0.15
  makes the discount 0.01 where the exact product 0.015 rounds to 0.02.
\<close>

theorem discount_not_half_up_counterexample:
  "get_discount_price 50 1 = 1 \<and> spec_discount_price 50 1 = 0 \<and>
   get_discount_price 15 10 = 9 \<and> spec_discount_price 15 10 = 8"
  by code_simp

subsection \<open>Reclassification at purchase\<close>

lemma fold_max_ge: "(x::nat) \<in> set xs \<Longrightarrow> x \<le> fold max xs a"
proof (induction xs arbitrary: a)
  case Nil
  then show ?case by simp
next
  case (Cons y ys)
  have mono: "b \<le> fold max ys b" for b by (induction ys arbitrary: b) (auto intro: order_trans[OF max.cobounded2])
  show ?case
  proof (cases "x = y")
    case True
    then show ?thesis using mono[of "max y a"] by simp
  next
    case False
    then show ?thesis using Cons by simp
  qed
qed

lemma fresh_item_id_new: "r \<in> set (orderitems s) \<Longrightarrow> item_id r < fresh_item_id s"
  using fold_max_ge[of "item_id r" "map item_id (orderitems s)" 0]
  by (simp add: fresh_item_id_def less_Suc_eq_le)

lemma save_item_new:
  assumes "\<And>r. r \<in> set (orderitems s) \<Longrightarrow> item_id r \<noteq> item_id item"
  shows "orderitems (save_item item s) = orderitems s @ [item]"
  using assms by (auto simp: save_item_def list_ex_iff)

lemma save_item_last:
  assumes "orderitems s = rows @ [x]" "item_id y = item_id x"
    "\<And>r. r \<in> set rows \<Longrightarrow> item_id r \<noteq> item_id x"
  shows "orderitems (save_item y s) = rows @ [y]"
  using assms by (auto simp: save_item_def list_ex_iff intro!: map_idI)

lemma course_item_add_to_order_success:
  assumes "course_item_add_to_order ev cls q desc table ordr c ms cost cur s = (Inr (ordr', item), s')"
  shows "orderitems s' = orderitems s @ [item]" "kind item = cls" "item_order item = order_id ordr"
    "course_id item = c" "qty item = q" "item_id item = fresh_item_id s"
    "item_status item = order_status ordr"
proof -
  from assms obtain course_name where cn: "get_course ev c = Some course_name"
    by (auto simp: course_item_add_to_order_def split: option.splits)
  from assms have nc: "\<not> contained_in_order cls ordr c s"
    by (auto simp: course_item_add_to_order_def cn split: if_splits)
  have empty: "filter (\<lambda>i. kind i = cls \<and> item_order i = order_id ordr \<and> item_user i = order_user ordr
                        \<and> course_id i = c) (orderitems s) = []"
    using nc by (auto simp: contained_in_order_def orderitem_set_def list_ex_iff filter_empty_conv)
  let ?new = "new_item ev cls ordr c s"
  have goc: "get_or_create ev cls ordr c s = Inr (?new, save_item ?new s)"
    by (simp add: get_or_create_def empty)
  have newid: "item_id ?new = fresh_item_id s" by (simp add: new_item_def)
  have fresh: "\<And>r. r \<in> set (orderitems s) \<Longrightarrow> item_id r \<noteq> item_id ?new"
    using fresh_item_id_new newid by fastforce
  have rows1: "orderitems (save_item ?new s) = orderitems s @ [?new]"
    using fresh by (rule save_item_new)
  define cm where "cm = (case mode_for_course ev c ms of None \<Rightarrow> DEFAULT_MODE ev | Some m \<Rightarrow> m)"
  define cost' where "cost' = (case cost of None \<Rightarrow> min_price cm
                         | Some v \<Rightarrow> if v = 0 then min_price cm else v)"
  define currency' where "currency' = (case cur of None \<Rightarrow> mode_currency cm
                             | Some cu \<Rightarrow> if cu = [] then mode_currency cm else cu)"
  define item0 where "item0 = ?new\<lparr>item_status := order_status ordr, mode := slug cm, qty := q,
                     unit_cost := cost', line_desc := desc @ course_name, item_currency := currency',
                     report_comments := csv_report_comments table c\<rparr>"
  from assms have "item = item0 \<and> s' = save_item item0 (save_order ordr' (save_item ?new s))"
    unfolding course_item_add_to_order_def Let_def cn goc
      cm_def[symmetric] cost'_def[symmetric] currency'_def[symmetric]
    by (auto simp: item0_def split: if_splits option.splits)
  then have item: "item = item0" and s': "s' = save_item item (save_order ordr' (save_item ?new s))"
    by simp_all
  have idi: "item_id item = item_id ?new" by (simp add: item item0_def)
  show "orderitems s' = orderitems s @ [item]"
    unfolding s'
    by (rule save_item_last[where x = ?new]) (use rows1 idi fresh in auto)
  show "kind item = cls" "item_order item = order_id ordr" "course_id item = c" "qty item = q"
    "item_id item = fresh_item_id s" "item_status item = order_status ordr"
    by (simp_all add: item item0_def new_item_def)
qed

lemma to_bundle_items_rows:
  assumes "to_bundle_items ev ordr xs s = (Inr ordr', s')"
  shows "\<exists>news. orderitems s' = orderitems s @ news \<and>
           map (\<lambda>j. (kind j, item_order j, course_id j, qty j)) news =
             map (\<lambda>i. (CourseRegCodeItem, order_id ordr, course_id i, qty i))
               (filter (\<lambda>i. kind i = PaidCourseRegistration) xs) \<and>
           (\<forall>j\<in>set news. \<forall>r\<in>set (orderitems s). item_id r < item_id j) \<and>
           distinct (map item_id news)"
  using assms
proof (induction xs arbitrary: ordr s)
  case Nil
  then show ?case by simp
next
  case (Cons x xs)
  show ?case
  proof (cases "kind x = PaidCourseRegistration")
    case False
    with Cons.prems have "to_bundle_items ev ordr xs s = (Inr ordr', s')" by simp
    from Cons.IH[OF this] show ?thesis using False by simp
  next
    case True
    with Cons.prems obtain o1 item s1 where
      a: "course_item_add_to_order ev CourseRegCodeItem (qty x) ''Enrollment codes for Course: ''
            (CourseRegCodeItemAnnotation ev) ordr (course_id x) (DEFAULT_MODE_SLUG ev) None None s
          = (Inr (o1, item), s1)"
      and b: "to_bundle_items ev o1 xs s1 = (Inr ordr', s')"
      by (auto simp: CourseRegCodeItem_add_to_order_def split: sum.splits prod.splits)
    note it = course_item_add_to_order_success[OF a]
    have o1: "order_id o1 = order_id ordr"
      using course_item_add_to_order_order[OF a]
      by (metis Order.select_convs(1) Order.surjective Order.update_convs(3))
    from Cons.IH[OF b] obtain news where
      n1: "orderitems s' = orderitems s1 @ news"
      and n2: "map (\<lambda>j. (kind j, item_order j, course_id j, qty j)) news =
             map (\<lambda>i. (CourseRegCodeItem, order_id o1, course_id i, qty i))
               (filter (\<lambda>i. kind i = PaidCourseRegistration) xs)"
      and n3: "\<forall>j\<in>set news. \<forall>r\<in>set (orderitems s1). item_id r < item_id j"
      and n4: "distinct (map item_id news)"
      by blast
    have lt: "\<forall>r\<in>set (orderitems s). item_id r < item_id item"
      using it(6) fresh_item_id_new by simp
    have "orderitems s' = orderitems s @ (item # news)" using n1 it(1) by simp
    moreover have "map (\<lambda>j. (kind j, item_order j, course_id j, qty j)) (item # news) =
             map (\<lambda>i. (CourseRegCodeItem, order_id ordr, course_id i, qty i))
               (filter (\<lambda>i. kind i = PaidCourseRegistration) (x # xs))"
      using True n2 it o1 by simp
    moreover have "\<forall>j\<in>set (item # news). \<forall>r\<in>set (orderitems s). item_id r < item_id j"
      using lt n3 it(1) by auto
    moreover have "distinct (map item_id (item # news))"
      using n4 n3 it(1) by fastforce
    ultimately show ?thesis by blast
  qed
qed

lemma delete_item_other [simp]:
  "orders (delete_item item s) = orders s"
  "couponredemptions (delete_item item s) = couponredemptions s"
  "registrationcoderedemptions (delete_item item s) = registrationcoderedemptions s"
  "effects (delete_item item s) = effects s"
  by (simp_all add: delete_item_def)

lemma fold_delete_item_rows:
  "orderitems (fold delete_item dels s) = filter (\<lambda>r. item_id r \<notin> item_id ` set dels) (orderitems s)"
proof (induction dels arbitrary: s)
  case Nil
  then show ?case by simp
next
  case (Cons d dels)
  have one: "orderitems (delete_item d s) = filter (\<lambda>r. item_id r \<noteq> item_id d) (orderitems s)"
    by (simp add: delete_item_def)
  have "orderitems (fold delete_item dels (delete_item d s))
        = filter (\<lambda>r. item_id r \<notin> item_id ` set dels) (orderitems (delete_item d s))"
    by (rule Cons.IH)
  then show ?case
    unfolding one by (simp add: conj_commute cong: conj_cong)
qed

lemma save_item_rows_cong:
  "orderitems a = orderitems b \<Longrightarrow> orderitems (save_item x a) = orderitems (save_item x b)"
  by (simp add: save_item_def)

lemma fold_save_rows_cong:
  "orderitems a = orderitems b \<Longrightarrow>
     orderitems (fold (\<lambda>x. save_item (f x)) xs a) = orderitems (fold (\<lambda>x. save_item (f x)) xs b)"
proof (induction xs arbitrary: a b)
  case Nil
  then show ?case by simp
next
  case (Cons x xs)
  show ?case
    using Cons.IH[OF save_item_rows_cong[OF Cons.prems, of "f x"]] by simp
qed

lemma purchased_callback_rows:
  "purchased_callback ev item s = (None, s') \<Longrightarrow> orderitems s' = orderitems s \<and> orders s' = orders s"
  by (auto simp: purchased_callback_def split: item_kind.splits if_splits)

lemma purchase_items_rows:
  assumes "purchase_items ev now xs s = (None, s')"
  shows "orderitems s' =
           orderitems (fold (\<lambda>x. save_item (x\<lparr>item_status := Purchased, fulfilled_time := Some now\<rparr>)) xs s)"
    and "orders s' = orders s"
  using assms
proof (induction xs arbitrary: s)
  case Nil
  {
    case 1
    then show ?case by simp
  next
    case 2
    then show ?case by simp
  }
next
  case (Cons x xs)
  let ?f = "\<lambda>x. x\<lparr>item_status := Purchased, fulfilled_time := Some now\<rparr>"
  {
    case 1
    then obtain s0 where cb: "purchased_callback ev x s = (None, s0)"
      and rest: "purchase_items ev now xs (save_item (?f x) s0) = (None, s')"
      by (auto simp: purchase_item_def split: prod.splits option.splits)
    have "orderitems (save_item (?f x) s0) = orderitems (save_item (?f x) s)"
      using purchased_callback_rows[OF cb] by (intro save_item_rows_cong) simp
    then have "orderitems (fold (\<lambda>x. save_item (?f x)) xs (save_item (?f x) s0))
        = orderitems (fold (\<lambda>x. save_item (?f x)) xs (save_item (?f x) s))"
      by (rule fold_save_rows_cong)
    then show ?case using Cons.IH(1)[OF rest] by simp
  next
    case 2
    then obtain s0 where cb: "purchased_callback ev x s = (None, s0)"
      and rest: "purchase_items ev now xs (save_item (?f x) s0) = (None, s')"
      by (auto simp: purchase_item_def split: prod.splits option.splits)
    show ?case using Cons.IH(2)[OF rest] purchased_callback_rows[OF cb] by simp
  }
qed

lemma purchase_unfold:
  assumes "order_status ordr \<noteq> Purchased"
  shows "\<exists>o2. order_id o2 = order_id ordr \<and> order_type o2 = order_type ordr \<and>
           purchase ev now b ordr s =
             (case (if order_type o2 = BUSINESS then update_order_type ev o2 (save_order o2 s)
                    else (Inr o2, save_order o2 s)) of
                (Inl e, s2) \<Rightarrow> (Inl e, s2)
              | (Inr ordr3, s2) \<Rightarrow>
                 (case purchase_items ev now (orderitem_set ordr3 s2) s2 of
                    (Some e, s3) \<Rightarrow> (Inl e, s3)
                  | (None, s3) \<Rightarrow>
                      (Inr ordr3,
                       s3\<lparr>effects := effects s3 @
                            [ConfirmationEmails (order_id ordr3) (order_type ordr3 = BUSINESS)]\<rparr>)))"
proof -
  define o1 where "o1 = ordr\<lparr>order_status := Purchased, purchase_time := Some now,
                          bill_to_first := arg_first b, bill_to_last := arg_last b,
                          bill_to_city := arg_city b, bill_to_state := arg_state b,
                          bill_to_country := arg_country b, bill_to_postalcode := arg_postalcode b\<rparr>"
  define o2 where "o2 = (if STORE_BILLING_INFO ev
                     then o1\<lparr>bill_to_street1 := arg_street1 b, bill_to_street2 := arg_street2 b,
                                bill_to_ccnum := arg_ccnum b, bill_to_cardtype := arg_cardtype b,
                                processor_reply_dump := arg_processor_reply_dump b\<rparr>
                     else o1)"
  have "order_id o2 = order_id ordr" "order_type o2 = order_type ordr"
    by (simp_all add: o2_def o1_def)
  moreover have "purchase ev now b ordr s =
             (case (if order_type o2 = BUSINESS then update_order_type ev o2 (save_order o2 s)
                    else (Inr o2, save_order o2 s)) of
                (Inl e, s2) \<Rightarrow> (Inl e, s2)
              | (Inr ordr3, s2) \<Rightarrow>
                 (case purchase_items ev now (orderitem_set ordr3 s2) s2 of
                    (Some e, s3) \<Rightarrow> (Inl e, s3)
                  | (None, s3) \<Rightarrow>
                      (Inr ordr3,
                       s3\<lparr>effects := effects s3 @
                            [ConfirmationEmails (order_id ordr3) (order_type ordr3 = BUSINESS)]\<rparr>)))"
    using assms unfolding purchase_def Let_def o2_def o1_def by simp
  ultimately show ?thesis by blast
qed

lemma purchase_items_all_rows:
  assumes "purchase_items ev now (orderitem_set ordr s) s = (None, s')"
    and "distinct (map item_id (orderitems s))"
  shows "orderitems s' =
           map (\<lambda>r. if item_order r = order_id ordr
                     then r\<lparr>item_status := Purchased, fulfilled_time := Some now\<rparr> else r)
             (orderitems s)"
  using purchase_items_rows(1)[OF assms(1)]
    fold_save_filter[OF assms(2), of "\<lambda>x. x\<lparr>item_status := Purchased, fulfilled_time := Some now\<rparr>"
       "\<lambda>i. item_order i = order_id ordr"]
  by (simp add: orderitem_set_def)

lemma orderitem_set_cong:
  "order_id a = order_id b \<Longrightarrow> orderitems s = orderitems t \<Longrightarrow> orderitem_set a s = orderitem_set b t"
  by (simp add: orderitem_set_def)

lemma update_order_type_business_rows:
  assumes "update_order_type ev ordr s = (Inr ordr', s')"
    and "list_ex (\<lambda>i. 1 < qty i) (orderitem_set ordr s)"
  shows "\<exists>news. orderitems s' =
             filter (\<lambda>r. item_id r \<notin> item_id ` set (filter (\<lambda>i. kind i = PaidCourseRegistration)
                                                       (orderitem_set ordr s))) (orderitems s) @ news \<and>
           map (\<lambda>j. (kind j, item_order j, course_id j, qty j)) news =
             map (\<lambda>i. (CourseRegCodeItem, order_id ordr, course_id i, qty i))
               (filter (\<lambda>i. kind i = PaidCourseRegistration) (orderitem_set ordr s)) \<and>
           (\<forall>j\<in>set news. \<forall>r\<in>set (orderitems s). item_id r < item_id j) \<and>
           distinct (map item_id news)"
proof -
  let ?xs = "orderitem_set ordr s"
  let ?dels = "filter (\<lambda>i. kind i = PaidCourseRegistration) ?xs"
  from assms obtain o1 sA where
    tb: "to_bundle_items ev ordr ?xs s = (Inr o1, sA)"
    and s': "s' = save_order (o1\<lparr>order_type := BUSINESS\<rparr>) (fold delete_item ?dels sA)"
    unfolding update_order_type_def Let_def
    by (auto split: sum.splits prod.splits)
  from to_bundle_items_rows[OF tb] obtain news where
    n1: "orderitems sA = orderitems s @ news"
    and n2: "map (\<lambda>j. (kind j, item_order j, course_id j, qty j)) news =
             map (\<lambda>i. (CourseRegCodeItem, order_id ordr, course_id i, qty i)) ?dels"
    and n3: "\<forall>j\<in>set news. \<forall>r\<in>set (orderitems s). item_id r < item_id j"
    and n4: "distinct (map item_id news)"
    by blast
  have sub: "set ?dels \<subseteq> set (orderitems s)" by (auto simp: orderitem_set_def)
  have keep: "filter (\<lambda>r. item_id r \<notin> item_id ` set ?dels) news = news"
  proof (rule filter_True, rule ballI)
    fix j assume j: "j \<in> set news"
    show "item_id j \<notin> item_id ` set ?dels"
    proof
      assume "item_id j \<in> item_id ` set ?dels"
      then obtain r where "r \<in> set ?dels" "item_id j = item_id r" by auto
      then show False using n3 j sub by fastforce
    qed
  qed
  have "orderitems s' = filter (\<lambda>r. item_id r \<notin> item_id ` set ?dels) (orderitems s @ news)"
    by (simp add: s' fold_delete_item_rows n1)
  then have "orderitems s' = filter (\<lambda>r. item_id r \<notin> item_id ` set ?dels) (orderitems s) @ news"
    using keep by simp
  then show ?thesis using n2 n3 n4 by blast
qed

text \<open>
  Claim C5, as amended. The statement is about a purchase that succeeds on an order not yet
  purchased, with distinct primary keys of the item rows. If no item of the order has a
  quantity above 1, the order is personal afterwards. \<^verbatim>\<open>purchase\<close> calls
  \<^verbatim>\<open>update_order_type\<close> only for an order that is business already: an order that is
  personal when purchased stays personal and keeps its items, whatever their quantities; only
  their status and fulfilment time change. If the order is business and some item has a
  quantity above 1, it stays business, no single-seat item of the order is left, every
  single-seat item it had has a bundle item of the same course and the same quantity, and the
  rows of the single-seat items are deleted.
\<close>

theorem purchase_reclassification:
  assumes "purchase ev now b ordr s = (Inr ordr', s')"
    and "order_status ordr \<noteq> Purchased"
    and "distinct (map item_id (orderitems s))"
  shows "(\<not> list_ex (\<lambda>i. 1 < qty i) (orderitem_set ordr s) \<longrightarrow> order_type ordr' = PERSONAL) \<and>
         (order_type ordr = PERSONAL \<longrightarrow>
            order_type ordr' = PERSONAL \<and>
            orderitems s' =
              map (\<lambda>r. if item_order r = order_id ordr
                        then r\<lparr>item_status := Purchased, fulfilled_time := Some now\<rparr> else r)
                (orderitems s)) \<and>
         (order_type ordr = BUSINESS \<and> list_ex (\<lambda>i. 1 < qty i) (orderitem_set ordr s) \<longrightarrow>
            order_type ordr' = BUSINESS \<and>
            list_all (\<lambda>i. kind i \<noteq> PaidCourseRegistration) (orderitem_set ordr' s') \<and>
            list_all (\<lambda>i. list_ex (\<lambda>j. kind j = CourseRegCodeItem \<and> course_id j = course_id i \<and>
                                         qty j = qty i) (orderitem_set ordr' s'))
              (filter (\<lambda>i. kind i = PaidCourseRegistration) (orderitem_set ordr s)) \<and>
            list_all (\<lambda>i. item_id i \<notin> item_id ` set (orderitems s'))
              (filter (\<lambda>i. kind i = PaidCourseRegistration) (orderitem_set ordr s)))"
proof -
  let ?U = "\<lambda>r. if item_order r = order_id ordr
                 then r\<lparr>item_status := Purchased, fulfilled_time := Some now\<rparr> else r"
  let ?B = "list_ex (\<lambda>i. 1 < qty i) (orderitem_set ordr s)"
  let ?paid = "filter (\<lambda>i. kind i = PaidCourseRegistration) (orderitem_set ordr s)"
  from purchase_unfold[OF assms(2), of ev now b s] obtain o2 where
    o2: "order_id o2 = order_id ordr" "order_type o2 = order_type ordr"
    and pu: "purchase ev now b ordr s =
             (case (if order_type o2 = BUSINESS then update_order_type ev o2 (save_order o2 s)
                    else (Inr o2, save_order o2 s)) of
                (Inl e, s2) \<Rightarrow> (Inl e, s2)
              | (Inr ordr3, s2) \<Rightarrow>
                 (case purchase_items ev now (orderitem_set ordr3 s2) s2 of
                    (Some e, s3) \<Rightarrow> (Inl e, s3)
                  | (None, s3) \<Rightarrow>
                      (Inr ordr3,
                       s3\<lparr>effects := effects s3 @
                            [ConfirmationEmails (order_id ordr3) (order_type ordr3 = BUSINESS)]\<rparr>)))"
    by blast
  let ?s1 = "save_order o2 s"
  have xs1: "orderitem_set o2 ?s1 = orderitem_set ordr s"
    using o2(1) by (intro orderitem_set_cong) simp_all
  have personal: "order_type ordr' = PERSONAL \<and> orderitems s' = map ?U (orderitems s)"
    if ty: "order_type ordr = PERSONAL"
  proof -
    from pu assms(1) ty o2 obtain s3 where
      pi: "purchase_items ev now (orderitem_set o2 ?s1) ?s1 = (None, s3)"
      and r: "ordr' = o2" "orderitems s' = orderitems s3"
      by (auto split: prod.splits option.splits)
    have "orderitems s3 = map ?U (orderitems s)"
      using purchase_items_all_rows[OF pi] assms(3) o2(1) by simp
    then show ?thesis using r ty o2(2) by simp
  qed
  have business: "\<exists>o3 s2 s3. update_order_type ev o2 ?s1 = (Inr o3, s2) \<and>
        purchase_items ev now (orderitem_set o3 s2) s2 = (None, s3) \<and> ordr' = o3 \<and>
        orderitems s' = orderitems s3"
    if ty: "order_type ordr = BUSINESS"
    using pu assms(1) ty o2 by (auto split: prod.splits option.splits sum.splits)
  have not_bulk: "order_type ordr' = PERSONAL" if nb: "\<not> ?B"
  proof (cases "order_type ordr")
    case PERSONAL
    then show ?thesis using personal by simp
  next
    case BUSINESS
    from business[OF this] obtain s2 where "update_order_type ev o2 ?s1 = (Inr ordr', s2)" by blast
    from update_order_type_order(3)[OF this] show ?thesis using nb xs1 by simp
  qed
  have bulk: "order_type ordr' = BUSINESS \<and>
            list_all (\<lambda>i. kind i \<noteq> PaidCourseRegistration) (orderitem_set ordr' s') \<and>
            list_all (\<lambda>i. list_ex (\<lambda>j. kind j = CourseRegCodeItem \<and> course_id j = course_id i \<and>
                                         qty j = qty i) (orderitem_set ordr' s')) ?paid \<and>
            list_all (\<lambda>i. item_id i \<notin> item_id ` set (orderitems s')) ?paid"
    if ty: "order_type ordr = BUSINESS" and B: "?B"
  proof -
    from business[OF ty] obtain s2 s3 where
      up: "update_order_type ev o2 ?s1 = (Inr ordr', s2)"
      and pi: "purchase_items ev now (orderitem_set ordr' s2) s2 = (None, s3)"
      and rows': "orderitems s' = orderitems s3"
      by blast
    have B1: "list_ex (\<lambda>i. 1 < qty i) (orderitem_set o2 ?s1)" using B xs1 by simp
    have oid: "order_id ordr' = order_id ordr"
      using update_order_type_order(2)[OF up] o2(1) by simp
    have oty: "order_type ordr' = BUSINESS"
      using update_order_type_order(3)[OF up] B1 by simp
    from update_order_type_business_rows[OF up B1] obtain news where
      n1: "orderitems s2 = filter (\<lambda>r. item_id r \<notin> item_id ` set ?paid) (orderitems s) @ news"
      and n2: "map (\<lambda>j. (kind j, item_order j, course_id j, qty j)) news =
             map (\<lambda>i. (CourseRegCodeItem, order_id ordr, course_id i, qty i)) ?paid"
      and n3: "\<forall>j\<in>set news. \<forall>r\<in>set (orderitems s). item_id r < item_id j"
      and n4: "distinct (map item_id news)"
      unfolding xs1 using o2(1) by auto
    let ?old = "filter (\<lambda>r. item_id r \<notin> item_id ` set ?paid) (orderitems s)"
    have d2: "distinct (map item_id (orderitems s2))"
      unfolding n1 using assms(3) n4 n3 by (fastforce simp: distinct_map_filter)
    have rows: "orderitems s' = map ?U (?old @ news)"
      using purchase_items_all_rows[OF pi d2] rows' oid n1 by simp
    have newkind: "\<And>j. j \<in> set news \<Longrightarrow> kind j = CourseRegCodeItem \<and> item_order j = order_id ordr"
    proof -
      fix j assume "j \<in> set news"
      then have "(kind j, item_order j, course_id j, qty j)
          \<in> set (map (\<lambda>i. (CourseRegCodeItem, order_id ordr, course_id i, qty i)) ?paid)"
        unfolding n2[symmetric] by (simp add: rev_image_eqI)
      then show "kind j = CourseRegCodeItem \<and> item_order j = order_id ordr" by auto
    qed
    have no_paid: "list_all (\<lambda>i. kind i \<noteq> PaidCourseRegistration) (orderitem_set ordr' s')"
    proof -
      have "kind i \<noteq> PaidCourseRegistration"
        if i: "i \<in> set (orderitems s')" "item_order i = order_id ordr" for i
      proof -
        from i(1) have "i \<in> ?U ` set (?old @ news)" unfolding rows by (simp only: set_map)
        then obtain r where r: "r \<in> set (?old @ news)" "i = ?U r" by blast
        have ki: "kind i = kind r" "item_order i = item_order r" using r(2) by simp_all
        show ?thesis
        proof (cases "r \<in> set news")
          case True
          then show ?thesis using newkind ki by simp
        next
          case False
          then have "r \<in> set (orderitems s)" "item_id r \<notin> item_id ` set ?paid" using r(1) by auto
          then show ?thesis using ki i(2) by (auto simp: orderitem_set_def)
        qed
      qed
      then show ?thesis by (auto simp: list_all_iff orderitem_set_def oid)
    qed
    have bundles: "list_all (\<lambda>i. list_ex (\<lambda>j. kind j = CourseRegCodeItem \<and> course_id j = course_id i \<and>
                                         qty j = qty i) (orderitem_set ordr' s')) ?paid"
    proof -
      have "\<exists>j\<in>set (orderitem_set ordr' s'). kind j = CourseRegCodeItem \<and> course_id j = course_id i \<and>
               qty j = qty i" if i: "i \<in> set ?paid" for i
      proof -
        from i have "(CourseRegCodeItem, order_id ordr, course_id i, qty i)
            \<in> set (map (\<lambda>j. (kind j, item_order j, course_id j, qty j)) news)"
          unfolding n2 by (simp add: rev_image_eqI)
        then obtain j where j: "j \<in> set news" "kind j = CourseRegCodeItem"
          "item_order j = order_id ordr" "course_id j = course_id i" "qty j = qty i"
          by auto
        then have "?U j \<in> set (orderitems s')" unfolding rows by simp
        moreover have "kind (?U j) = CourseRegCodeItem" "course_id (?U j) = course_id i"
          "qty (?U j) = qty i" "item_order (?U j) = order_id ordr"
          using j by simp_all
        ultimately have "?U j \<in> set (orderitem_set ordr' s')"
          "kind (?U j) = CourseRegCodeItem \<and> course_id (?U j) = course_id i \<and> qty (?U j) = qty i"
          by (simp_all add: orderitem_set_def oid)
        then show ?thesis by (rule bexI[rotated])
      qed
      then show ?thesis by (simp add: list_all_iff list_ex_iff)
    qed
    have gone: "list_all (\<lambda>i. item_id i \<notin> item_id ` set (orderitems s')) ?paid"
    proof -
      have "item_id i \<notin> item_id ` set (orderitems s')" if i: "i \<in> set ?paid" for i
      proof
        assume "item_id i \<in> item_id ` set (orderitems s')"
        then obtain r' where r': "r' \<in> set (orderitems s')" "item_id i = item_id r'" by blast
        from r'(1) have "r' \<in> ?U ` set (?old @ news)" unfolding rows by (simp only: set_map)
        then obtain r where r: "r \<in> set (?old @ news)" "item_id i = item_id (?U r)"
          using r'(2) by blast
        have idr: "item_id (?U r) = item_id r" by simp
        have i_in: "i \<in> set (orderitems s)" using i by (auto simp: orderitem_set_def)
        show False
        proof (cases "r \<in> set news")
          case True
          then show ?thesis using n3 i_in r(2) idr by fastforce
        next
          case False
          then have "item_id r \<notin> item_id ` set ?paid" using r(1) by auto
          then show ?thesis using i r(2) idr by (metis imageI)
        qed
      qed
      then show ?thesis by (simp add: list_all_iff)
    qed
    show ?thesis using oty no_paid bundles gone by blast
  qed
  show ?thesis using not_bulk personal bulk by blast
qed

theorem purchase_reclassification_witness:
  "order_type (projr (fst (purchase an_env 5 a_billing (an_order 1 Cart BUSINESS) (cart_bulk BUSINESS))))
     = BUSINESS \<and>
   list_all (\<lambda>i. kind i \<noteq> PaidCourseRegistration)
     (orderitem_set (projr (fst (purchase an_env 5 a_billing (an_order 1 Cart BUSINESS) (cart_bulk BUSINESS))))
        (snd (purchase an_env 5 a_billing (an_order 1 Cart BUSINESS) (cart_bulk BUSINESS)))) \<and>
   map (\<lambda>i. (item_id i, kind i, course_id i, qty i, item_status i))
     (orderitems (snd (purchase an_env 5 a_billing (an_order 1 Cart BUSINESS) (cart_bulk BUSINESS))))
     = [(3, CourseRegCodeItem, Some ''course-A'', 1, Purchased),
        (4, CourseRegCodeItem, Some ''course-B'', 3, Purchased)] \<and>
   order_type (projr (fst (purchase an_env 5 a_billing (an_order 1 Cart PERSONAL) cart_two_seats)))
     = PERSONAL"
proof -
  let ?o = "an_order 1 Cart BUSINESS"
  let ?P = "purchase an_env 5 a_billing ?o (cart_bulk BUSINESS)"
  let ?Q = "purchase an_env 5 a_billing (an_order 1 Cart PERSONAL) cart_two_seats"
  have "\<not> isl (fst ?P)" by code_simp
  then have P: "?P = (Inr (projr (fst ?P)), snd ?P)" by (metis prod.collapse sum.collapse(2))
  have st: "order_status ?o \<noteq> Purchased" by code_simp
  have d: "distinct (map item_id (orderitems (cart_bulk BUSINESS)))" by code_simp
  have ty: "order_type ?o = BUSINESS" by code_simp
  have bulk: "list_ex (\<lambda>i. 1 < qty i) (orderitem_set ?o (cart_bulk BUSINESS))" by code_simp
  have rows: "map (\<lambda>i. (item_id i, kind i, course_id i, qty i, item_status i)) (orderitems (snd ?P))
     = [(3, CourseRegCodeItem, Some ''course-A'', 1, Purchased),
        (4, CourseRegCodeItem, Some ''course-B'', 3, Purchased)]"
    by code_simp
  have "\<not> isl (fst ?Q)" by code_simp
  then have Q: "?Q = (Inr (projr (fst ?Q)), snd ?Q)" by (metis prod.collapse sum.collapse(2))
  have stq: "order_status (an_order 1 Cart PERSONAL) \<noteq> Purchased" by code_simp
  have dq: "distinct (map item_id (orderitems cart_two_seats))" by code_simp
  have nq: "\<not> list_ex (\<lambda>i. 1 < qty i) (orderitem_set (an_order 1 Cart PERSONAL) cart_two_seats)"
    by code_simp
  have a: "order_type (projr (fst ?P)) = BUSINESS"
    and b: "list_all (\<lambda>i. kind i \<noteq> PaidCourseRegistration) (orderitem_set (projr (fst ?P)) (snd ?P))"
    using purchase_reclassification[OF P st d] ty bulk by blast+
  have c: "order_type (projr (fst ?Q)) = PERSONAL"
    using purchase_reclassification[OF Q stq dq] nq by blast
  show ?thesis using a b rows c by (intro conjI)
qed

text \<open>
  Claim C5 as stated fails for an order of type personal: with quantities 1 and 3 the
  purchase succeeds, the order is still personal and both items are still single-seat items.
\<close>

theorem personal_order_not_reclassified_counterexample:
  "list_ex (\<lambda>i. 1 < qty i) (orderitem_set (an_order 1 Cart PERSONAL) (cart_bulk PERSONAL)) \<and>
   \<not> isl (fst (purchase an_env 5 a_billing (an_order 1 Cart PERSONAL) (cart_bulk PERSONAL))) \<and>
   order_type (projr (fst (purchase an_env 5 a_billing (an_order 1 Cart PERSONAL) (cart_bulk PERSONAL))))
     = PERSONAL \<and>
   map (\<lambda>i. (item_id i, kind i, course_id i, qty i, item_status i))
     (orderitems (snd (purchase an_env 5 a_billing (an_order 1 Cart PERSONAL) (cart_bulk PERSONAL))))
     = [(1, PaidCourseRegistration, Some ''course-A'', 1, Purchased),
        (2, PaidCourseRegistration, Some ''course-B'', 3, Purchased)]"
  by code_simp

end
